theory Spec2Isabelle
  imports Complex_Main "HOL-Library.Char_ord" "HOL-Library.List_Lexorder" "HOL-Library.Multiset"
begin

section \<open>Strings\<close>

text \<open>
  A Python \<open>str\<close> is modelled as a \<open>string\<close> whose characters are the code points
  0..255 (Latin-1); \<open>of_char\<close> gives the code point.  The order on strings is the
  lexicographic order on code points, as Python compares \<open>str\<close> values.
\<close>

definition py_isspace :: "char \<Rightarrow> bool" where
  \<comment> \<open>\<open>str.isspace\<close> on one character, also the class \<open>\s\<close> of \<open>re\<close>: code points
     9-13, 28-32, 133 and 160.\<close>
  "py_isspace c = (let n = (of_char c :: nat) in
     (9 \<le> n \<and> n \<le> 13) \<or> (28 \<le> n \<and> n \<le> 32) \<or> n = 133 \<or> n = 160)"

definition strip :: "string \<Rightarrow> string" where
  \<comment> \<open>\<open>str.strip()\<close>: leading and trailing whitespace removed.\<close>
  "strip s = rev (dropWhile py_isspace (rev (dropWhile py_isspace s)))"

definition ascii_upper :: "char \<Rightarrow> bool" where
  "ascii_upper c = (let n = (of_char c :: nat) in 65 \<le> n \<and> n \<le> 90)"

definition ascii_lower :: "char \<Rightarrow> bool" where
  "ascii_lower c = (let n = (of_char c :: nat) in 97 \<le> n \<and> n \<le> 122)"

definition ascii_digit :: "char \<Rightarrow> bool" where
  "ascii_digit c = (let n = (of_char c :: nat) in 48 \<le> n \<and> n \<le> 57)"

definition py_isalnum_char :: "char \<Rightarrow> bool" where
  \<comment> \<open>The characters below 256 that \<open>str.isalnum\<close> accepts: the ASCII letters and
     digits, and the Latin-1 letters and numeric characters.\<close>
  "py_isalnum_char c = (let n = (of_char c :: nat) in
     ascii_digit c \<or> ascii_upper c \<or> ascii_lower c \<or>
     n = 170 \<or> n = 178 \<or> n = 179 \<or> n = 181 \<or> n = 185 \<or> n = 186 \<or>
     (188 \<le> n \<and> n \<le> 190) \<or> (192 \<le> n \<and> n \<le> 214) \<or>
     (216 \<le> n \<and> n \<le> 246) \<or> 248 \<le> n)"

definition isalnum :: "string \<Rightarrow> bool" where
  \<comment> \<open>\<open>str.isalnum()\<close>: non-empty, every character alphanumeric.\<close>
  "isalnum s = (s \<noteq> [] \<and> list_all py_isalnum_char s)"

definition py_lower_char :: "char \<Rightarrow> char" where
  \<comment> \<open>\<open>str.lower()\<close> on one character below 256: A-Z and the Latin-1 capitals
     192-222 (without 215) move up by 32.\<close>
  "py_lower_char c = (let n = (of_char c :: nat) in
     if ascii_upper c \<or> (192 \<le> n \<and> n \<le> 222 \<and> n \<noteq> 215) then char_of (n + 32) else c)"

definition lower :: "string \<Rightarrow> string" where
  "lower s = map py_lower_char s"

fun split_on :: "char \<Rightarrow> string \<Rightarrow> string list" where
  \<comment> \<open>\<open>s.split(d)\<close> for a one-character separator: never the empty list.\<close>
  "split_on d [] = [[]]"
| "split_on d (c # cs) =
     (if c = d then [] # split_on d cs
      else (case split_on d cs of
              [] \<Rightarrow> [[c]]
            | w # ws \<Rightarrow> (c # w) # ws))"

fun join :: "string \<Rightarrow> string list \<Rightarrow> string" where
  \<comment> \<open>\<open>d.join(xs)\<close>.\<close>
  "join d [] = []"
| "join d [x] = x"
| "join d (x # y # ys) = x @ d @ join d (y # ys)"

section \<open>Field validators\<close>

definition is_valid_employee_id_format :: "string \<Rightarrow> bool \<times> string" where
  "is_valid_employee_id_format employee_id =
     (if employee_id = [] then (False, ''Employee ID cannot be empty.'')
      else if \<not> isalnum employee_id
        then (False, ''Employee ID must be alphanumeric (letters and numbers only).'')
      else (True, ''''))"

definition name_char :: "char \<Rightarrow> bool" where
  \<comment> \<open>The character class \<open>[a-zA-Z ]\<close>.\<close>
  "name_char c = (ascii_lower c \<or> ascii_upper c \<or> c = CHR '' '')"

definition is_valid_name_format :: "string \<Rightarrow> bool \<times> string" where
  "is_valid_name_format name =
     (if name = [] \<or> strip name = [] then (False, ''Name cannot be empty.'')
      else if \<not> (strip name \<noteq> [] \<and> list_all name_char (strip name))
        then (False, ''Name must contain only alphabetic characters and spaces.'')
      else (True, ''''))"

definition department_char :: "char \<Rightarrow> bool" where
  \<comment> \<open>The character class \<open>[a-zA-Z0-9 \-]\<close>.\<close>
  "department_char c =
     (ascii_lower c \<or> ascii_upper c \<or> ascii_digit c \<or> c = CHR '' '' \<or> c = CHR ''-'')"

definition is_valid_department_format :: "string \<Rightarrow> bool \<times> string" where
  "is_valid_department_format department =
     (if department = [] \<or> strip department = [] then (False, ''Department cannot be empty.'')
      else if \<not> (strip department \<noteq> [] \<and> list_all department_char (strip department))
        then (False, ''Department can only contain letters, numbers, spaces, and hyphens.'')
      else (True, ''''))"

section \<open>Floating-point numbers\<close>

text \<open>
  A Python \<open>float\<close> is an IEEE 754 binary64 value: a finite value with its sign bit
  (so that \<open>-0.0\<close> is distinct from \<open>0.0\<close>) and its magnitude as an exact rational,
  an infinity with its sign, or not-a-number.  Conversions round to the nearest
  representable value, ties to even, as CPython's correctly rounded \<open>float()\<close> does.
\<close>

datatype pyfloat = Finite bool rat | Infinity bool | NaN

definition float_wf :: "pyfloat \<Rightarrow> bool" where
  \<comment> \<open>The magnitude of a finite value is not negative (the sign is in the sign bit).\<close>
  "float_wf x = (case x of Finite s m \<Rightarrow> 0 \<le> m | _ \<Rightarrow> True)"

definition round_half_even :: "rat \<Rightarrow> int" where
  "round_half_even q = (let f = \<lfloor>q\<rfloor>; r = q - of_int f in
     if r < 1 / 2 then f else if 1 / 2 < r then f + 1 else if even f then f else f + 1)"

function bit_length :: "int \<Rightarrow> int" where
  \<comment> \<open>\<open>int.bit_length()\<close> of a non-negative integer.\<close>
  "bit_length n = (if n \<le> 0 then 0 else 1 + bit_length (n div 2))"
  by pat_completeness auto
termination
  by (relation "measure nat") auto

declare bit_length.simps [simp del]

definition pow2 :: "int \<Rightarrow> rat" where
  "pow2 e = (if 0 \<le> e then 2 ^ nat e else 1 / 2 ^ nat (- e))"

definition pow10 :: "int \<Rightarrow> rat" where
  "pow10 e = (if 0 \<le> e then 10 ^ nat e else 1 / 10 ^ nat (- e))"

definition ilog2 :: "rat \<Rightarrow> int" where
  \<comment> \<open>For positive \<open>q\<close>, the exponent \<open>k\<close> with \<open>2^k \<le> q < 2^(k+1)\<close>.\<close>
  "ilog2 q = (let (a, b) = quotient_of q;
                  k = bit_length a - bit_length b
              in if pow2 k \<le> q then k else k - 1)"

definition round_to_double :: "bool \<Rightarrow> rat \<Rightarrow> pyfloat" where
  \<comment> \<open>The binary64 value nearest to the magnitude \<open>q \<ge> 0\<close> with sign bit \<open>s\<close>:
     53 significant bits, least exponent -1074, and infinity once the rounded
     value reaches \<open>2^1024\<close>.\<close>
  "round_to_double s q =
     (if q = 0 then Finite s 0
      else let e = max (ilog2 q - 52) (- 1074);
               v = of_int (round_half_even (q / pow2 e)) * pow2 e
           in if 1024 \<le> ilog2 v then Infinity s else Finite s v)"

definition float_lt_zero :: "pyfloat \<Rightarrow> bool" where
  \<comment> \<open>\<open>x < 0\<close>: false for both zeros and for not-a-number.\<close>
  "float_lt_zero x = (case x of Finite s m \<Rightarrow> s \<and> 0 < m | Infinity s \<Rightarrow> s | NaN \<Rightarrow> False)"

definition float_eq :: "pyfloat \<Rightarrow> pyfloat \<Rightarrow> bool" where
  \<comment> \<open>\<open>x == y\<close>: the two zeros are equal, not-a-number equals nothing.\<close>
  "float_eq x y = (case (x, y) of
       (Finite s m, Finite t n) \<Rightarrow> m = n \<and> (s = t \<or> m = 0)
     | (Infinity s, Infinity t) \<Rightarrow> s = t
     | _ \<Rightarrow> False)"

definition float_add :: "pyfloat \<Rightarrow> pyfloat \<Rightarrow> pyfloat" where
  \<comment> \<open>\<open>x + y\<close>, the exact sum rounded.\<close>
  "float_add x y = (case (x, y) of
       (Finite s m, Finite t n) \<Rightarrow>
         (let v = (if s then - m else m) + (if t then - n else n)
          in if v = 0 then Finite (s \<and> t) 0 else round_to_double (v < 0) \<bar>v\<bar>)
     | (Finite s m, Infinity t) \<Rightarrow> Infinity t
     | (Infinity s, Finite t n) \<Rightarrow> Infinity s
     | (Infinity s, Infinity t) \<Rightarrow> (if s = t then Infinity s else NaN)
     | _ \<Rightarrow> NaN)"

definition py_round2 :: "pyfloat \<Rightarrow> pyfloat" where
  \<comment> \<open>\<open>round(x, 2)\<close>: the binary64 value nearest to the value rounded to two
     decimals; infinities and not-a-number are left as they are.\<close>
  "py_round2 x = (case x of
       Finite s m \<Rightarrow> round_to_double s (of_int (round_half_even (m * 100)) / 100)
     | _ \<Rightarrow> x)"

subsection \<open>The conversion \<open>float(text)\<close>\<close>

definition float_space :: "char \<Rightarrow> bool" where
  \<comment> \<open>The whitespace \<open>float()\<close> strips: ASCII 9-13 and 32, and the Latin-1 spaces
     133 and 160.\<close>
  "float_space c = (let n = (of_char c :: nat) in (9 \<le> n \<and> n \<le> 13) \<or> n = 32 \<or> n = 133 \<or> n = 160)"

definition float_strip :: "string \<Rightarrow> string" where
  "float_strip s = rev (dropWhile float_space (rev (dropWhile float_space s)))"

fun remove_underscores :: "char \<Rightarrow> string \<Rightarrow> string option" where
  \<comment> \<open>An underscore stands between two digits only; the first argument is the
     previous character.\<close>
  "remove_underscores prev [] = (if prev = CHR ''_'' then None else Some [])"
| "remove_underscores prev (c # cs) =
     (if c = CHR ''_'' then (if ascii_digit prev then remove_underscores c cs else None)
      else if prev = CHR ''_'' \<and> \<not> ascii_digit c then None
      else map_option ((#) c) (remove_underscores c cs))"

definition digits_value :: "string \<Rightarrow> int" where
  \<comment> \<open>The number a string of decimal digits denotes.\<close>
  "digits_value ds = foldl (\<lambda>n c. 10 * n + (of_char c - 48)) 0 ds"

definition parse_sign :: "string \<Rightarrow> bool \<times> string" where
  "parse_sign s = (case s of
       [] \<Rightarrow> (False, [])
     | c # cs \<Rightarrow> if c = CHR ''-'' then (True, cs) else if c = CHR ''+'' then (False, cs) else (False, s))"

definition parse_exponent :: "string \<Rightarrow> int option" where
  \<comment> \<open>What follows the mantissa: nothing, or \<open>e\<close>, an optional sign and digits.\<close>
  "parse_exponent s = (case s of
       [] \<Rightarrow> Some 0
     | c # cs \<Rightarrow>
         if c = CHR ''e'' \<or> c = CHR ''E''
         then (let (neg, ds) = parse_sign cs in
               if ds \<noteq> [] \<and> list_all ascii_digit ds
               then Some (if neg then - digits_value ds else digits_value ds)
               else None)
         else None)"

definition ascii_tolower :: "char \<Rightarrow> char" where
  "ascii_tolower c = (if ascii_upper c then char_of (of_char c + (32 :: nat)) else c)"

definition float_of_string :: "string \<Rightarrow> pyfloat option" where
  \<comment> \<open>\<open>float(s)\<close> for a \<open>str\<close>; \<open>None\<close> stands for the \<open>ValueError\<close>.\<close>
  "float_of_string s =
     (case remove_underscores (CHR 0x00) (float_strip s) of
        None \<Rightarrow> None
      | Some t \<Rightarrow>
          (let (neg, body) = parse_sign t; low = map ascii_tolower body in
           if low = ''inf'' \<or> low = ''infinity'' then Some (Infinity neg)
           else if low = ''nan'' then Some NaN
           else
             (let ip = takeWhile ascii_digit body;
                  r1 = dropWhile ascii_digit body;
                  (fp, r2) = (case r1 of
                      [] \<Rightarrow> ([], [])
                    | c # cs \<Rightarrow> if c = CHR ''.''
                        then (takeWhile ascii_digit cs, dropWhile ascii_digit cs)
                        else ([], r1))
              in if ip = [] \<and> fp = [] then None
                 else (case parse_exponent r2 of
                         None \<Rightarrow> None
                       | Some ex \<Rightarrow>
                           Some (round_to_double neg
                             (of_int (digits_value (ip @ fp)) * pow10 (ex - int (length fp))))))))"

subsection \<open>The format \<open>.2f\<close>\<close>

definition digit_char :: "int \<Rightarrow> char" where
  "digit_char n = char_of (48 + n)"

function digits_of :: "int \<Rightarrow> string" where
  \<comment> \<open>The decimal digits of a non-negative integer.\<close>
  "digits_of n = (if n < 10 then [digit_char n] else digits_of (n div 10) @ [digit_char (n mod 10)])"
  by pat_completeness auto
termination
  by (relation "measure nat") auto

declare digits_of.simps [simp del]

definition format_2f :: "pyfloat \<Rightarrow> string" where
  \<comment> \<open>\<open>f"{x:.2f}"\<close>: the value rounded to two decimals (ties to even on the exact
     binary value), in fixed-point notation.\<close>
  "format_2f x = (case x of
       NaN \<Rightarrow> ''nan''
     | Infinity s \<Rightarrow> (if s then ''-inf'' else ''inf'')
     | Finite s m \<Rightarrow>
         (let n = round_half_even (m * 100)
          in (if s then ''-'' else '''') @ digits_of (n div 100) @ ''.'' @
             [digit_char (n mod 100 div 10), digit_char (n mod 10)]))"

section \<open>The validators of salary, email and contact details\<close>

definition is_valid_salary_format :: "string \<Rightarrow> bool \<times> string" where
  "is_valid_salary_format salary_str =
     (if salary_str = [] \<or> strip salary_str = [] then (False, ''Salary cannot be empty.'')
      else (case float_of_string salary_str of
              None \<Rightarrow> (False, ''Salary must be a valid number (e.g., 50000 or 65000.50).'')
            | Some salary \<Rightarrow>
                if float_lt_zero salary then (False, ''Salary cannot be negative.'')
                else (True, '''')))"

definition email_pattern :: "string \<Rightarrow> bool" where
  \<comment> \<open>\<open>re.match(r'^\S+@\S+\.\S+$', s)\<close> on a stripped string (which has no final
     newline, so \<open>$\<close> is the end): no whitespace anywhere, an \<open>@\<close> after at least one
     character, and later a dot with a character between them and one after it.\<close>
  "email_pattern s =
     (list_all (\<lambda>c. \<not> py_isspace c) s \<and>
      list_ex (\<lambda>i. s ! i = CHR ''@'' \<and>
                  list_ex (\<lambda>j. s ! j = CHR ''.'') [i + 2 ..< length s - 1])
        [1 ..< length s])"

definition is_valid_email_format :: "string \<Rightarrow> bool \<times> string" where
  "is_valid_email_format email =
     (if email = [] \<or> strip email = [] then (False, ''Email cannot be empty.'')
      else if \<not> email_pattern (strip email)
        then (False, ''Invalid email format (must contain '' @ [CHR 0x27] @ ''@'' @ [CHR 0x27] @
                      '' and '' @ [CHR 0x27] @ ''.'' @ [CHR 0x27] @ '', no spaces allowed).'')
      else (True, ''''))"

definition is_valid_contact_details_format :: "string \<Rightarrow> bool \<times> string" where
  "is_valid_contact_details_format contact_details =
     (if contact_details = [] \<or> strip contact_details = []
        then (False, ''Contact Details cannot be empty.'')
      else (True, ''''))"

section \<open>The class \<open>Employee\<close>\<close>

record employee =
  employee_id :: string
  name :: string
  department :: string
  salary :: pyfloat
  email :: string
  contact_details :: string

datatype error = ValueError string | EOFError

text \<open>
  The constructor takes the salary as text (the tests do) or as a \<open>float\<close> (as
  \<open>from_dict\<close> and \<open>add_employee\<close> do).  It validates \<open>str(salary)\<close>.  For a
  \<open>float\<close> that text is its \<open>repr\<close>, which is never blank and which \<open>float()\<close>
  reads back as the very same value, so the salary validator then comes down to its
  test \<open>salary < 0\<close>.
\<close>

datatype salary_arg = SalaryStr string | SalaryFloat pyfloat

definition salary_check :: "salary_arg \<Rightarrow> bool \<times> string" where
  \<comment> \<open>\<open>is_valid_salary_format(str(salary))\<close>.\<close>
  "salary_check a = (case a of
       SalaryStr s \<Rightarrow> is_valid_salary_format s
     | SalaryFloat x \<Rightarrow>
         if float_lt_zero x then (False, ''Salary cannot be negative.'') else (True, ''''))"

definition float_of_arg :: "salary_arg \<Rightarrow> pyfloat option" where
  \<comment> \<open>\<open>float(salary)\<close>.\<close>
  "float_of_arg a = (case a of SalaryStr s \<Rightarrow> float_of_string s | SalaryFloat x \<Rightarrow> Some x)"

definition Employee ::
  "string \<Rightarrow> string \<Rightarrow> string \<Rightarrow> salary_arg \<Rightarrow> string \<Rightarrow> string \<Rightarrow> error + employee" where
  \<comment> \<open>\<open>Employee.__init__\<close>: the six validators in order, the first failure raised as
     \<open>ValueError\<close>; then every text field stored stripped.\<close>
  "Employee eid nm dept sal em contact =
     (if \<not> fst (is_valid_employee_id_format eid) then Inl (ValueError (snd (is_valid_employee_id_format eid)))
      else if \<not> fst (is_valid_name_format nm) then Inl (ValueError (snd (is_valid_name_format nm)))
      else if \<not> fst (is_valid_department_format dept) then Inl (ValueError (snd (is_valid_department_format dept)))
      else if \<not> fst (salary_check sal) then Inl (ValueError (snd (salary_check sal)))
      else if \<not> fst (is_valid_email_format em) then Inl (ValueError (snd (is_valid_email_format em)))
      else if \<not> fst (is_valid_contact_details_format contact)
        then Inl (ValueError (snd (is_valid_contact_details_format contact)))
      else (case float_of_arg sal of
              None \<Rightarrow> Inl (ValueError ''could not convert string to float'')
            | Some x \<Rightarrow>
                Inr \<lparr> employee_id = strip eid, name = strip nm, department = strip dept,
                      salary = x, email = strip em, contact_details = strip contact \<rparr>))"

type_synonym pydict = "string \<rightharpoonup> string"

definition dict_get :: "pydict \<Rightarrow> string \<Rightarrow> string \<Rightarrow> string" where
  \<comment> \<open>\<open>d.get(key, default)\<close>.\<close>
  "dict_get d k dflt = (case d k of None \<Rightarrow> dflt | Some v \<Rightarrow> v)"

definition to_dict :: "employee \<Rightarrow> pydict" where
  "to_dict e =
     [''Employee ID'' \<mapsto> employee_id e,
      ''Name'' \<mapsto> name e,
      ''Department'' \<mapsto> department e,
      ''Salary'' \<mapsto> format_2f (salary e),
      ''Email'' \<mapsto> email e,
      ''Contact Details'' \<mapsto> contact_details e]"

definition from_dict :: "pydict \<Rightarrow> error + employee option" where
  \<comment> \<open>\<open>Employee.from_dict\<close>: \<open>Inr None\<close> is the returned \<open>None\<close>, \<open>Inl\<close> the
     \<open>ValueError\<close> raised again for the caller.\<close>
  "from_dict data_dict =
     (let salary_str = dict_get data_dict ''Salary'' ''0'' in
      case float_of_string salary_str of
        None \<Rightarrow> Inr None
      | Some salary_float \<Rightarrow>
          (case Employee (dict_get data_dict ''Employee ID'' '''')
                         (dict_get data_dict ''Name'' '''')
                         (dict_get data_dict ''Department'' '''')
                         (SalaryFloat salary_float)
                         (dict_get data_dict ''Email'' '''')
                         (dict_get data_dict ''Contact Details'' '''') of
             Inl e \<Rightarrow> Inl e
           | Inr emp \<Rightarrow> Inr (Some emp)))"

section \<open>The class \<open>EmployeeManagementSystem\<close>\<close>

text \<open>
  The system is modelled at its default configuration: the delimiter \<open>","\<close> and the
  six keys of \<open>EMPLOYEE_KEYS\<close>.  Its state is the list \<open>_employees_list\<close> and the text
  of the file at \<open>_file_name\<close> (\<open>None\<close> while the file does not exist).  Reading and
  writing the file always succeed; the mail sent after an addition touches neither.
\<close>

definition DELIMITER :: char where
  "DELIMITER = CHR '',''"

definition EMPLOYEE_KEYS :: "string list" where
  "EMPLOYEE_KEYS = [''Employee ID'', ''Name'', ''Department'', ''Salary'', ''Email'', ''Contact Details'']"

record ems =
  employees_list :: "employee list"
  file_content :: "string option"

text \<open>What \<open>_load_employees\<close> prints, with the line number and the line where it shows them.\<close>

datatype message =
    Duplicate_id string nat
  | Skipping_none nat string
  | Skipping_format nat string string
  | Skipping_malformed nat nat string
  | Unexpected_error nat string
  | Loaded nat
  | No_data_file

fun text_lines :: "bool \<Rightarrow> string \<Rightarrow> string \<Rightarrow> string list" where
  \<comment> \<open>The lines a file opened in text mode yields (each of \<open>\n\<close>, \<open>\r\<close> and \<open>\r\n\<close>
     ends a line), without their line ends.  The flag says that the last character
     was \<open>\r\<close>; the second argument is the current line, reversed.\<close>
  "text_lines cr acc [] = (if acc = [] then [] else [rev acc])"
| "text_lines cr acc (c # cs) =
     (if c = CHR 0x0A then (if cr then text_lines False acc cs else rev acc # text_lines False [] cs)
      else if c = CHR 0x0D then rev acc # text_lines True [] cs
      else text_lines False (c # acc) cs)"

definition file_lines :: "string \<Rightarrow> string list" where
  "file_lines txt = text_lines False [] txt"

definition load_line :: "nat \<Rightarrow> string \<Rightarrow> employee list \<Rightarrow> employee list \<times> message list" where
  \<comment> \<open>The body of the loop of \<open>_load_employees\<close> for one line: the list after the
     line, and what the line made it print.\<close>
  "load_line line_num raw employees_data =
     (let line = strip raw in
      if line = [] then (employees_data, [])
      else
        (let vals = split_on DELIMITER line in
         if length vals = length EMPLOYEE_KEYS then
           (case from_dict (map_of (zip EMPLOYEE_KEYS vals)) of
              Inr (Some employee_obj) \<Rightarrow>
                if list_ex (\<lambda>existing_emp. employee_id existing_emp = employee_id employee_obj) employees_data
                then (employees_data, [Duplicate_id (employee_id employee_obj) line_num])
                else (employees_data @ [employee_obj], [])
            | Inr None \<Rightarrow> (employees_data, [Skipping_none line_num line])
            | Inl (ValueError ve) \<Rightarrow> (employees_data, [Skipping_format line_num ve line])
            | Inl EOFError \<Rightarrow> (employees_data, [Unexpected_error line_num line]))
         else (employees_data, [Skipping_malformed line_num (length vals) line])))"

fun load_lines :: "nat \<Rightarrow> string list \<Rightarrow> employee list \<Rightarrow> employee list \<times> message list" where
  "load_lines line_num [] employees_data = (employees_data, [])"
| "load_lines line_num (raw # rest) employees_data =
     (let (employees_data', out) = load_line line_num raw employees_data;
          (final, out') = load_lines (Suc line_num) rest employees_data'
      in (final, out @ out'))"

definition load_employees :: "string option \<Rightarrow> employee list \<times> message list" where
  \<comment> \<open>\<open>_load_employees\<close>: the first line is the header and is not looked at; the data
     lines are numbered from 2.\<close>
  "load_employees f = (case f of
       None \<Rightarrow> ([], [No_data_file])
     | Some txt \<Rightarrow>
         (let (employees_data, out) = load_lines 2 (drop 1 (file_lines txt)) []
          in (employees_data, out @ [Loaded (length employees_data)])))"

definition EmployeeManagementSystem :: "string option \<Rightarrow> ems" where
  \<comment> \<open>\<open>__init__\<close>, from the text of the file.\<close>
  "EmployeeManagementSystem f = \<lparr> employees_list = fst (load_employees f), file_content = f \<rparr>"

definition employee_line :: "employee \<Rightarrow> string" where
  "employee_line employee_obj =
     join [DELIMITER] (map (\<lambda>key. dict_get (to_dict employee_obj) key '''') EMPLOYEE_KEYS)"

definition file_text :: "employee list \<Rightarrow> string" where
  \<comment> \<open>What \<open>_save_employees\<close> writes: the header, then one line for each record.\<close>
  "file_text es =
     concat (map (\<lambda>line. line @ [CHR 0x0A]) (join [DELIMITER] EMPLOYEE_KEYS # map employee_line es))"

definition save_employees :: "ems \<Rightarrow> ems" where
  "save_employees s = s \<lparr> file_content := Some (file_text (employees_list s)) \<rparr>"

definition find_employee_by_id :: "ems \<Rightarrow> string \<Rightarrow> employee option" where
  "find_employee_by_id s eid = find (\<lambda>employee. employee_id employee = eid) (employees_list s)"

fun index_from :: "nat \<Rightarrow> employee list \<Rightarrow> string \<Rightarrow> int" where
  "index_from i [] eid = - 1"
| "index_from i (employee # rest) eid =
     (if employee_id employee = eid then int i else index_from (Suc i) rest eid)"

definition find_employee_index_by_id :: "ems \<Rightarrow> string \<Rightarrow> int" where
  "find_employee_index_by_id s eid = index_from 0 (employees_list s) eid"

definition is_employee_id_unique :: "ems \<Rightarrow> string \<Rightarrow> bool" where
  "is_employee_id_unique s eid = (find_employee_by_id s eid = None)"

subsection \<open>The interactive operations\<close>

text \<open>
  \<open>input()\<close> takes the next line of a list of lines still to come, and raises
  \<open>EOFError\<close> when none is left.  An operation returns the state, the message that
  closes it, and the lines it has not read; \<open>Inl\<close> is an exception that leaves it.
\<close>

datatype outcome =
    Added
  | Creation_error string
  | No_records
  | Invalid_input string
  | Not_found string
  | Shown employee
  | Update_aborted string
  | No_changes
  | Updated
  | Update_cancelled
  | Deleted
  | Deletion_cancelled

definition read_input :: "string list \<Rightarrow> error + string \<times> string list" where
  "read_input inp = (case inp of [] \<Rightarrow> Inl EOFError | x # rest \<Rightarrow> Inr (x, rest))"

definition bind_err :: "error + 'a \<Rightarrow> ('a \<Rightarrow> error + 'b) \<Rightarrow> error + 'b" where
  "bind_err m f = (case m of Inl e \<Rightarrow> Inl e | Inr x \<Rightarrow> f x)"

fun prompt_employee_id :: "ems \<Rightarrow> string list \<Rightarrow> error + string \<times> string list" where
  \<comment> \<open>The first loop of \<open>add_employee\<close>: asks again until the id is well-formed and
     not yet in the list.\<close>
  "prompt_employee_id s [] = Inl EOFError"
| "prompt_employee_id s (x # inp) =
     (let eid = strip x in
      if \<not> fst (is_valid_employee_id_format eid) then prompt_employee_id s inp
      else if \<not> is_employee_id_unique s eid then prompt_employee_id s inp
      else Inr (eid, inp))"

fun prompt_field :: "(string \<Rightarrow> bool \<times> string) \<Rightarrow> string list \<Rightarrow> error + string \<times> string list" where
  \<comment> \<open>Each of the five other loops of \<open>add_employee\<close>: asks again until the
     validator accepts the stripped line.\<close>
  "prompt_field valid [] = Inl EOFError"
| "prompt_field valid (x # inp) =
     (let v = strip x in
      if \<not> fst (valid v) then prompt_field valid inp else Inr (v, inp))"

definition add_employee :: "ems \<Rightarrow> string list \<Rightarrow> error + ems \<times> outcome \<times> string list" where
  "add_employee s inp =
     bind_err (prompt_employee_id s inp) (\<lambda>(eid, inp1).
     bind_err (prompt_field is_valid_name_format inp1) (\<lambda>(nm, inp2).
     bind_err (prompt_field is_valid_department_format inp2) (\<lambda>(dept, inp3).
     bind_err (prompt_field is_valid_salary_format inp3) (\<lambda>(salary_str, inp4).
     bind_err (case float_of_string salary_str of
                 None \<Rightarrow> Inl (ValueError ''could not convert string to float'')
               | Some x \<Rightarrow> Inr x) (\<lambda>sal.
     bind_err (prompt_field is_valid_email_format inp4) (\<lambda>(em, inp5).
     bind_err (prompt_field is_valid_contact_details_format inp5) (\<lambda>(contact, inp6).
       case Employee eid nm dept (SalaryFloat sal) em contact of
         Inr new_employee \<Rightarrow>
           Inr (save_employees (s \<lparr> employees_list := employees_list s @ [new_employee] \<rparr>),
                Added, inp6)
       | Inl (ValueError e) \<Rightarrow> Inr (s, Creation_error e, inp6)
       | Inl EOFError \<Rightarrow> Inl EOFError)))))))"

definition view_employee :: "ems \<Rightarrow> string list \<Rightarrow> error + ems \<times> outcome \<times> string list" where
  "view_employee s inp =
     (if employees_list s = [] then Inr (s, No_records, inp)
      else bind_err (read_input inp) (\<lambda>(x, inp1).
        let employee_id_input = strip x in
        if \<not> fst (is_valid_employee_id_format employee_id_input)
          then Inr (s, Invalid_input (snd (is_valid_employee_id_format employee_id_input)), inp1)
        else (case find_employee_by_id s employee_id_input of
                Some found_employee \<Rightarrow> Inr (s, Shown found_employee, inp1)
              | None \<Rightarrow> Inr (s, Not_found employee_id_input, inp1))))"

definition optional_field ::
  "(string \<Rightarrow> bool \<times> string) \<Rightarrow> string \<Rightarrow> string \<Rightarrow> string + string" where
  \<comment> \<open>One field of \<open>update_employee\<close>: an empty line keeps the current value, a line
     the validator accepts replaces it, any other aborts the update with the
     validator's message (\<open>Inl\<close>).\<close>
  "optional_field valid new_str current =
     (if new_str \<noteq> [] then
        (if \<not> fst (valid new_str) then Inl (snd (valid new_str)) else Inr new_str)
      else Inr current)"

definition optional_salary :: "string \<Rightarrow> pyfloat \<Rightarrow> error + (string + pyfloat)" where
  \<comment> \<open>The salary field of \<open>update_employee\<close>; the accepted line goes through
     \<open>float()\<close>.\<close>
  "optional_salary new_salary_str current =
     (if new_salary_str \<noteq> [] then
        (if \<not> fst (is_valid_salary_format new_salary_str)
           then Inr (Inl (snd (is_valid_salary_format new_salary_str)))
         else (case float_of_string new_salary_str of
                 None \<Rightarrow> Inl (ValueError ''could not convert string to float'')
               | Some x \<Rightarrow> Inr (Inr x)))
      else Inr (Inr current))"

definition update_employee :: "ems \<Rightarrow> string list \<Rightarrow> error + ems \<times> outcome \<times> string list" where
  "update_employee s inp =
     (if employees_list s = [] then Inr (s, No_records, inp)
      else bind_err (read_input inp) (\<lambda>(x0, inp0).
        let employee_id_input = strip x0 in
        if \<not> fst (is_valid_employee_id_format employee_id_input)
          then Inr (s, Invalid_input (snd (is_valid_employee_id_format employee_id_input)), inp0)
        else
          let found_employee_index = find_employee_index_by_id s employee_id_input in
          if found_employee_index = - 1 then Inr (s, Not_found employee_id_input, inp0)
          else
            let employee_to_update = employees_list s ! nat found_employee_index in
            bind_err (read_input inp0) (\<lambda>(x1, inp1).
            let new_name_str = strip x1 in
            case optional_field is_valid_name_format new_name_str (name employee_to_update) of
              Inl msg \<Rightarrow> Inr (s, Update_aborted (''Invalid Name - '' @ msg), inp1)
            | Inr updated_name \<Rightarrow>
            bind_err (read_input inp1) (\<lambda>(x2, inp2).
            let new_department_str = strip x2 in
            case optional_field is_valid_department_format new_department_str
                   (department employee_to_update) of
              Inl msg \<Rightarrow> Inr (s, Update_aborted (''Invalid Department - '' @ msg), inp2)
            | Inr updated_department \<Rightarrow>
            bind_err (read_input inp2) (\<lambda>(x3, inp3).
            let new_salary_str = strip x3 in
            bind_err (optional_salary new_salary_str (salary employee_to_update)) (\<lambda>r.
            case r of
              Inl msg \<Rightarrow> Inr (s, Update_aborted (''Invalid Salary - '' @ msg), inp3)
            | Inr updated_salary \<Rightarrow>
            bind_err (read_input inp3) (\<lambda>(x4, inp4).
            let new_email_str = strip x4 in
            case optional_field is_valid_email_format new_email_str (email employee_to_update) of
              Inl msg \<Rightarrow> Inr (s, Update_aborted (''Invalid Email - '' @ msg), inp4)
            | Inr updated_email \<Rightarrow>
            bind_err (read_input inp4) (\<lambda>(x5, inp5).
            let new_contact_str = strip x5 in
            case optional_field is_valid_contact_details_format new_contact_str
                   (contact_details employee_to_update) of
              Inl msg \<Rightarrow> Inr (s, Update_aborted (''Invalid Contact Details - '' @ msg), inp5)
            | Inr updated_contact_details \<Rightarrow>
            let changes_made = (new_name_str \<noteq> [] \<or> new_department_str \<noteq> [] \<or>
                  new_salary_str \<noteq> [] \<or> new_email_str \<noteq> [] \<or> new_contact_str \<noteq> []) in
            if \<not> changes_made then Inr (s, No_changes, inp5)
            else
              bind_err (read_input inp5) (\<lambda>(x6, inp6).
              let confirmation = strip (lower x6) in
              if confirmation = ''yes'' \<or> confirmation = ''y'' then
                Inr (save_employees (s \<lparr> employees_list :=
                       (employees_list s) [nat found_employee_index :=
                          employee_to_update \<lparr> name := updated_name,
                            department := updated_department,
                            salary := updated_salary,
                            email := updated_email,
                            contact_details := updated_contact_details \<rparr>] \<rparr>),
                     Updated, inp6)
              else Inr (s, Update_cancelled, inp6))))))))))"

definition delete_employee :: "ems \<Rightarrow> string list \<Rightarrow> error + ems \<times> outcome \<times> string list" where
  "delete_employee s inp =
     (if employees_list s = [] then Inr (s, No_records, inp)
      else bind_err (read_input inp) (\<lambda>(x0, inp0).
        let employee_id_input = strip x0 in
        if \<not> fst (is_valid_employee_id_format employee_id_input)
          then Inr (s, Invalid_input (snd (is_valid_employee_id_format employee_id_input)), inp0)
        else
          let found_employee_index = find_employee_index_by_id s employee_id_input in
          if found_employee_index = - 1 then Inr (s, Not_found employee_id_input, inp0)
          else
            bind_err (read_input inp0) (\<lambda>(x1, inp1).
            let confirmation = strip (lower x1) in
            if confirmation = ''yes'' \<or> confirmation = ''y'' then
              Inr (save_employees (s \<lparr> employees_list :=
                     take (nat found_employee_index) (employees_list s) @
                     drop (Suc (nat found_employee_index)) (employees_list s) \<rparr>),
                   Deleted, inp1)
            else Inr (s, Deletion_cancelled, inp1))))"

subsection \<open>Listing and the report by department\<close>

text \<open>
  \<open>sorted(xs, key=f)\<close> is a stable sort by the key, here \<open>sort_key\<close>.  What the two
  views print is returned as data: the rows in the order printed and the totals.
\<close>

definition list_all_employees :: "ems \<Rightarrow> ems \<times> (employee list \<times> nat) option" where
  \<comment> \<open>The state after the call, and the rows with the total (\<open>None\<close>: no records).\<close>
  "list_all_employees s =
     (if employees_list s = [] then (s, None)
      else (let sorted_list = sort_key employee_id (employees_list s)
            in (s, Some (sorted_list, length (employees_list s)))))"

definition dept_key :: "employee \<Rightarrow> string" where
  "dept_key employee =
     (if department employee \<noteq> [] then lower (strip (department employee)) else ''uncategorized'')"

definition dept_display_name :: "employee \<Rightarrow> string" where
  "dept_display_name employee =
     (if department employee \<noteq> [] then strip (department employee) else ''Uncategorized'')"

record dept_info =
  display_name :: string
  employees :: "employee list"

fun add_to_departments ::
  "string \<Rightarrow> string \<Rightarrow> employee \<Rightarrow> (string \<times> dept_info) list \<Rightarrow> (string \<times> dept_info) list" where
  \<comment> \<open>One round of the grouping loop on the dictionary \<open>departments_data\<close>, kept in
     insertion order: a new key goes to the end with the display name of its first
     record, then the record joins the list under its key.\<close>
  "add_to_departments k d e [] = [(k, \<lparr> display_name = d, employees = [e] \<rparr>)]"
| "add_to_departments k d e ((k', info) # rest) =
     (if k' = k then (k', info \<lparr> employees := employees info @ [e] \<rparr>) # rest
      else (k', info) # add_to_departments k d e rest)"

definition departments_data :: "employee list \<Rightarrow> (string \<times> dept_info) list" where
  "departments_data es =
     foldl (\<lambda>dd employee. add_to_departments (dept_key employee) (dept_display_name employee) employee dd)
       [] es"

record dept_section =
  department_name :: string
  section_rows :: "employee list"
  total_in_dept :: nat
  total_salary_dept :: pyfloat

record report =
  sections :: "dept_section list"
  n_departments :: nat
  total_employees_overall :: nat

definition dept_section_of :: "dept_info \<Rightarrow> dept_section" where
  \<comment> \<open>The part of the report for one department: its records by name, their
     number, and the sum of their salaries, added in that order from 0.\<close>
  "dept_section_of info =
     (let sorted_dept_list = sort_key name (employees info)
      in \<lparr> department_name = display_name info,
           section_rows = sorted_dept_list,
           total_in_dept = length (employees info),
           total_salary_dept = foldl float_add (Finite False 0) (map salary sorted_dept_list) \<rparr>)"

definition generate_department_report :: "ems \<Rightarrow> ems \<times> report option" where
  "generate_department_report s =
     (if employees_list s = [] then (s, None)
      else
        (let dd = departments_data (employees_list s) in
         if dd = [] then (s, None)
         else
           (let sorted_depts = sort_key (\<lambda>(k, info). display_name info) dd;
                secs = map (\<lambda>(k, info). dept_section_of info) sorted_depts
            in (s, Some \<lparr> sections = secs,
                          n_departments = length dd,
                          total_employees_overall = sum_list (map total_in_dept secs) \<rparr>))))"

subsection \<open>The states the menu loop reaches\<close>

inductive reachable :: "ems \<Rightarrow> bool" where
  start: "reachable (EmployeeManagementSystem f)"
| add: "reachable s \<Longrightarrow> add_employee s inp = Inr (s', out, rest) \<Longrightarrow> reachable s'"
| update: "reachable s \<Longrightarrow> update_employee s inp = Inr (s', out, rest) \<Longrightarrow> reachable s'"
| delete: "reachable s \<Longrightarrow> delete_employee s inp = Inr (s', out, rest) \<Longrightarrow> reachable s'"
| view: "reachable s \<Longrightarrow> view_employee s inp = Inr (s', out, rest) \<Longrightarrow> reachable s'"
| listing: "reachable s \<Longrightarrow> reachable (fst (list_all_employees s))"
| reporting: "reachable s \<Longrightarrow> reachable (fst (generate_department_report s))"
| leave: "reachable s \<Longrightarrow> reachable (save_employees s)"

section \<open>Example data\<close>

text \<open>The three records of the test suite, and the empty store the tests start from.\<close>

definition emp_BF001 :: employee where
  "emp_BF001 = \<lparr> employee_id = ''BF001'', name = ''Alice Smith'', department = ''Engineering'',
     salary = Finite False (150001 / 2), email = ''alice.s@bitfutura.test'',
     contact_details = ''123-456-7890'' \<rparr>"

definition emp_BF002 :: employee where
  "emp_BF002 = \<lparr> employee_id = ''BF002'', name = ''Bob Johnson'', department = ''Marketing'',
     salary = Finite False 60000, email = ''bob.j@bitfutura.test'',
     contact_details = ''987-654-3210'' \<rparr>"

definition emp_BF003 :: employee where
  "emp_BF003 = \<lparr> employee_id = ''BF003'', name = ''Charlie Lee'', department = ''Engineering'',
     salary = Finite False 80000, email = ''charlie.l@bitfutura.test'',
     contact_details = ''555-111-2222'' \<rparr>"

definition header_line :: string where
  "header_line = ''Employee ID,Name,Department,Salary,Email,Contact Details''"

definition store_of :: "employee list \<Rightarrow> ems" where
  \<comment> \<open>A store holding the given records, as the tests set \<open>_employees_list\<close>, with no file.\<close>
  "store_of es = \<lparr> employees_list = es, file_content = None \<rparr>"

definition line_BF002 :: string where
  "line_BF002 = ''BF002,Bob Johnson,Marketing,60000,bob.j@bitfutura.test,987-654-3210''"

definition line_five_fields :: string where
  "line_five_fields = ''BF001,Alice Smith,Engineering,75000.50,alice.s@bitfutura.test''"

definition line_invalid_salary :: string where
  "line_invalid_salary =
     ''BF003,Charlie Lee,Engineering,INVALID_SAL,charlie.l@bitfutura.test,555-111-2222''"

definition mixed_file :: string where
  \<comment> \<open>A header, a well-formed line, a line of five fields and a line whose salary is
     not a number.\<close>
  "mixed_file = header_line @ [CHR 0x0A] @ line_BF002 @ [CHR 0x0A] @ line_five_fields @ [CHR 0x0A] @
     line_invalid_salary @ [CHR 0x0A]"

definition emp_lower_dept :: employee where
  \<comment> \<open>The third test record with its department in lower case and a space after it.\<close>
  "emp_lower_dept = emp_BF003 \<lparr> department := ''engineering '' \<rparr>"

section \<open>Auxiliary facts\<close>

subsection \<open>Stripping\<close>

lemma dropWhile_none: "\<forall>x\<in>set xs. \<not> P x \<Longrightarrow> dropWhile P xs = xs"
  by (cases xs) auto

lemma dropWhile_rev_hd:
  "xs \<noteq> [] \<Longrightarrow> \<not> P (hd xs) \<Longrightarrow>
     hd (rev (dropWhile P (rev xs))) = hd xs \<and> rev (dropWhile P (rev xs)) \<noteq> []"
  by (metis Nil_is_rev_conv dropWhile_eq_Nil_conv dropWhile_last hd_rev
    last_rev list.set_sel(1) set_rev)

lemma strip_idem: "strip (strip s) = strip s"
proof (cases "dropWhile py_isspace s = []")
  case True
  have "strip s = []" unfolding strip_def True by simp
  moreover have "strip [] = []" by (simp add: strip_def)
  ultimately show ?thesis by simp
next
  case False
  define t where "t = dropWhile py_isspace s"
  define u where "u = rev (dropWhile py_isspace (rev t))"
  have t: "t \<noteq> []" "\<not> py_isspace (hd t)"
    using False hd_dropWhile [of py_isspace s] by (simp_all add: t_def)
  have u: "u \<noteq> []" "hd u = hd t"
    using dropWhile_rev_hd [of t py_isspace] t by (simp_all add: u_def)
  have "dropWhile py_isspace u = u"
    using u t by (cases u) auto
  moreover have "dropWhile py_isspace (rev u) = rev u"
    by (simp add: u_def)
  ultimately have "strip u = u"
    by (simp add: strip_def)
  then show ?thesis
    by (simp add: strip_def t_def u_def)
qed

lemma strip_eq_Nil_iff: "strip s = [] \<longleftrightarrow> list_all py_isspace s"
proof
  assume a: "strip s = []"
  show "list_all py_isspace s"
  proof (rule ccontr)
    assume "\<not> list_all py_isspace s"
    then have t: "dropWhile py_isspace s \<noteq> []"
      by (simp add: list_all_iff)
    then have "\<not> py_isspace (hd (dropWhile py_isspace s))"
      by (rule hd_dropWhile)
    with dropWhile_rev_hd [of "dropWhile py_isspace s" py_isspace] t a show False
      by (simp add: strip_def)
  qed
next
  assume "list_all py_isspace s"
  then have "dropWhile py_isspace s = []"
    by (simp add: list_all_iff)
  then have "strip s = rev (dropWhile py_isspace (rev []))"
    by (simp only: strip_def)
  then show "strip s = []"
    by simp
qed

subsection \<open>The constructor and the lookups\<close>

lemma Employee_InrD:
  assumes "Employee eid nm dept sal em contact = Inr e"
  shows "fst (is_valid_employee_id_format eid)" "fst (is_valid_name_format nm)"
    "fst (is_valid_department_format dept)" "fst (salary_check sal)"
    "fst (is_valid_email_format em)" "fst (is_valid_contact_details_format contact)"
    "float_of_arg sal = Some (salary e)"
    "employee_id e = strip eid" "name e = strip nm" "department e = strip dept"
    "email e = strip em" "contact_details e = strip contact"
  using assms by (auto simp: Employee_def split: if_splits option.splits)

lemma valid_id_isalnum: "fst (is_valid_employee_id_format eid) \<Longrightarrow> isalnum eid"
  by (auto simp: is_valid_employee_id_format_def split: if_splits)

lemma find_by_id_None: "find_employee_by_id s eid = None \<longleftrightarrow> eid \<notin> employee_id ` set (employees_list s)"
  by (auto simp: find_employee_by_id_def find_None_iff)

lemma index_from_range:
  "index_from i es eid \<noteq> - 1 \<Longrightarrow>
     int i \<le> index_from i es eid \<and> index_from i es eid < int i + int (length es) \<and>
     employee_id (es ! (nat (index_from i es eid) - i)) = eid"
proof (induction es arbitrary: i)
  case Nil
  then show ?case by simp
next
  case (Cons e es)
  show ?case
  proof (cases "employee_id e = eid")
    case True
    then show ?thesis by simp
  next
    case False
    with Cons.prems have ne: "index_from (Suc i) es eid \<noteq> - 1" by simp
    from Cons.IH [OF ne]
    have r: "int (Suc i) \<le> index_from (Suc i) es eid"
      "index_from (Suc i) es eid < int (Suc i) + int (length es)"
      "employee_id (es ! (nat (index_from (Suc i) es eid) - Suc i)) = eid"
      by simp_all
    from r(1) have "nat (index_from (Suc i) es eid) - i = Suc (nat (index_from (Suc i) es eid) - Suc i)"
      by linarith
    with r False show ?thesis
      by simp

  qed
qed

lemma index_from_none: "index_from i es eid = - 1 \<longleftrightarrow> eid \<notin> employee_id ` set es"
proof (induction es arbitrary: i)
  case Nil
  then show ?case by simp
next
  case (Cons e es)
  then show ?case by auto
qed

lemma find_index_found:
  "find_employee_index_by_id s eid \<noteq> - 1 \<Longrightarrow>
     0 \<le> find_employee_index_by_id s eid \<and>
     nat (find_employee_index_by_id s eid) < length (employees_list s) \<and>
     employee_id (employees_list s ! nat (find_employee_index_by_id s eid)) = eid"
  using index_from_range [of 0 "employees_list s" eid]
  by (auto simp: find_employee_index_by_id_def)

subsection \<open>Ids hold no whitespace\<close>

lemma alnum_not_space: "py_isalnum_char c \<Longrightarrow> \<not> py_isspace c"
  by (auto simp: py_isalnum_char_def py_isspace_def ascii_digit_def ascii_upper_def ascii_lower_def Let_def)

lemma strip_no_space: "list_all (\<lambda>c. \<not> py_isspace c) s \<Longrightarrow> strip s = s"
  by (simp add: strip_def dropWhile_none list_all_iff)

lemma strip_isalnum: "isalnum s \<Longrightarrow> strip s = s"
  by (rule strip_no_space) (auto simp: isalnum_def list_all_iff alnum_not_space)

lemma Employee_id_unchanged:
  "Employee eid nm dept sal em contact = Inr e \<Longrightarrow> employee_id e = eid"
  using Employee_InrD(1,8) [of eid nm dept sal em contact e] valid_id_isalnum strip_isalnum
  by simp

subsection \<open>Loading keeps ids distinct\<close>

lemma load_line_cases:
  "load_line n raw acc = (acc', out) \<Longrightarrow>
     acc' = acc \<or> (\<exists>e. acc' = acc @ [e] \<and> out = [] \<and> employee_id e \<notin> employee_id ` set acc \<and>
        from_dict (map_of (zip EMPLOYEE_KEYS (split_on DELIMITER (strip raw)))) = Inr (Some e))"
  by (auto simp: load_line_def Let_def list_ex_iff split: if_splits sum.splits option.splits error.splits)

lemma load_line_distinct:
  "load_line n raw acc = (acc', out) \<Longrightarrow> distinct (map employee_id acc) \<Longrightarrow>
     distinct (map employee_id acc')"
  by (drule load_line_cases) auto

lemma load_lines_distinct:
  "load_lines n ls acc = (acc', out) \<Longrightarrow> distinct (map employee_id acc) \<Longrightarrow>
     distinct (map employee_id acc')"
proof (induction ls arbitrary: n acc acc' out)
  case Nil
  then show ?case by simp
next
  case (Cons raw rest)
  obtain a1 o1 where l: "load_line n raw acc = (a1, o1)"
    by (cases "load_line n raw acc")
  obtain a2 o2 where r: "load_lines (Suc n) rest a1 = (a2, o2)"
    by (cases "load_lines (Suc n) rest a1")
  from Cons.prems(1) l r have "acc' = a2" by simp
  moreover have "distinct (map employee_id a1)"
    using load_line_distinct [OF l Cons.prems(2)] .
  ultimately show ?case
    using Cons.IH [OF r] by simp
qed

lemma load_employees_distinct: "distinct (map employee_id (fst (load_employees f)))"
proof (cases f)
  case None
  then show ?thesis by (simp add: load_employees_def)
next
  case (Some content)
  obtain a o1 where l: "load_lines 2 (drop 1 (file_lines content)) [] = (a, o1)"
    by (cases "load_lines 2 (drop 1 (file_lines content)) []")
  from load_lines_distinct [OF l] have "distinct (map employee_id a)" by simp
  with Some l show ?thesis by (simp add: load_employees_def)
qed

subsection \<open>What the interactive operations do to the list\<close>

lemma prompt_employee_id_unique:
  "prompt_employee_id s inp = Inr (eid, rest) \<Longrightarrow>
     fst (is_valid_employee_id_format eid) \<and> is_employee_id_unique s eid"
  by (induction inp) (auto simp: Let_def split: if_splits)

lemma add_employee_cases:
  assumes "add_employee s inp = Inr (s', out, rest)"
  shows "s' = s \<and> out \<noteq> Added \<or>
     (\<exists>e. out = Added \<and> s' = save_employees (s \<lparr> employees_list := employees_list s @ [e] \<rparr>) \<and>
          employee_id e \<notin> employee_id ` set (employees_list s))"
  using assms
  by (auto simp: add_employee_def bind_err_def is_employee_id_unique_def find_by_id_None
      dest!: prompt_employee_id_unique Employee_id_unchanged
      split: sum.splits option.splits error.splits prod.splits)

lemma read_input_Inr: "read_input inp = Inr (x, r) \<longleftrightarrow> inp = x # r"
  by (cases inp) (auto simp: read_input_def)

lemma bind_err_InrE:
  assumes "bind_err m f = Inr r"
  obtains x where "m = Inr x" "f x = Inr r"
  using assms by (cases m) (auto simp: bind_err_def)

lemma optional_field_Inr:
  "optional_field valid new_str current = Inr u \<Longrightarrow>
     u = (if new_str = [] then current else new_str) \<and> (new_str = [] \<or> fst (valid new_str))"
  by (auto simp: optional_field_def split: if_splits)

lemma optional_salary_Inr:
  "optional_salary new_str current = Inr (Inr u) \<Longrightarrow>
     (if new_str = [] then u = current else float_of_string new_str = Some u) \<and>
     (new_str = [] \<or> fst (is_valid_salary_format new_str))"
  by (auto simp: optional_salary_def split: if_splits option.splits)

lemma update_employee_UpdatedE:
  assumes "update_employee s inp = Inr (s', Updated, rest)"
  obtains x0 x1 x2 x3 x4 x5 x6 un ud us ue uc where
    "inp = x0 # x1 # x2 # x3 # x4 # x5 # x6 # rest"
    "find_employee_index_by_id s (strip x0) \<noteq> - 1"
    "optional_field is_valid_name_format (strip x1)
       (name (employees_list s ! nat (find_employee_index_by_id s (strip x0)))) = Inr un"
    "optional_field is_valid_department_format (strip x2)
       (department (employees_list s ! nat (find_employee_index_by_id s (strip x0)))) = Inr ud"
    "optional_salary (strip x3)
       (salary (employees_list s ! nat (find_employee_index_by_id s (strip x0)))) = Inr (Inr us)"
    "optional_field is_valid_email_format (strip x4)
       (email (employees_list s ! nat (find_employee_index_by_id s (strip x0)))) = Inr ue"
    "optional_field is_valid_contact_details_format (strip x5)
       (contact_details (employees_list s ! nat (find_employee_index_by_id s (strip x0)))) = Inr uc"
    "s' = save_employees (s \<lparr> employees_list :=
            (employees_list s) [nat (find_employee_index_by_id s (strip x0)) :=
               (employees_list s ! nat (find_employee_index_by_id s (strip x0)))
                 \<lparr> name := un, department := ud, salary := us, email := ue,
                   contact_details := uc \<rparr>] \<rparr>)"
  using assms unfolding update_employee_def Let_def
  by (auto simp: read_input_Inr elim!: bind_err_InrE split: if_split_asm sum.split_asm)


lemma update_employee_other:
  "update_employee s inp = Inr (s', out, rest) \<Longrightarrow> out = Updated \<or> s' = s"
  unfolding update_employee_def Let_def
  by (auto simp: read_input_Inr elim!: bind_err_InrE split: if_split_asm sum.split_asm)

lemma delete_employee_cases:
  "delete_employee s inp = Inr (s', out, rest) \<Longrightarrow>
     s' = s \<or> (\<exists>i < length (employees_list s).
        s' = save_employees (s \<lparr> employees_list :=
               take i (employees_list s) @ drop (Suc i) (employees_list s) \<rparr>))"
  unfolding delete_employee_def Let_def
  by (auto simp: read_input_Inr elim!: bind_err_InrE split: if_split_asm sum.split_asm)
    (metis find_index_found)+

lemma view_employee_same: "view_employee s inp = Inr (s', out, rest) \<Longrightarrow> s' = s"
  unfolding view_employee_def Let_def
  by (auto simp: read_input_Inr elim!: bind_err_InrE split: if_split_asm option.split_asm)

lemma distinct_remove_nth: "distinct ys \<Longrightarrow> distinct (take i ys @ drop (Suc i) ys)"
  by (simp add: set_take_disj_set_drop_if_distinct)

lemma map_update_same: "(map f xs) [k := f (xs ! k)] = map f xs"
  by (metis list_update_id map_update)

lemma update_employee_ids:
  assumes "update_employee s inp = Inr (s', out, rest)"
  shows "map employee_id (employees_list s') = map employee_id (employees_list s)"
proof (cases "out = Updated")
  case True
  with assms have u: "update_employee s inp = Inr (s', Updated, rest)" by simp
  show ?thesis
    by (rule update_employee_UpdatedE [OF u]) (simp add: save_employees_def map_update map_update_same)
next
  case False
  with update_employee_other [OF assms] show ?thesis by simp
qed

lemma delete_employee_distinct:
  assumes "delete_employee s inp = Inr (s', out, rest)"
    and "distinct (map employee_id (employees_list s))"
  shows "distinct (map employee_id (employees_list s'))"
  using delete_employee_cases [OF assms(1)] assms(2) distinct_remove_nth [of "map employee_id (employees_list s)"]
  by (auto simp: save_employees_def take_map drop_map)

lemma reachable_distinct:
  assumes "reachable s"
  shows "distinct (map employee_id (employees_list s))"
  using assms
proof (induction rule: reachable.induct)
  case (start f)
  then show ?case by (simp add: EmployeeManagementSystem_def load_employees_distinct)
next
  case (add s inp s' out rest)
  from add_employee_cases [OF add.hyps(2)] add.IH show ?case
    by (auto simp: save_employees_def)
next
  case (update s inp s' out rest)
  with update_employee_ids show ?case by metis
next
  case (delete s inp s' out rest)
  with delete_employee_distinct show ?case by blast
next
  case (view s inp s' out rest)
  with view_employee_same show ?case by blast
next
  case (listing s)
  then show ?case by (simp add: list_all_employees_def Let_def)
next
  case (reporting s)
  then show ?case by (simp add: generate_department_report_def Let_def)
next
  case (leave s)
  then show ?case by (simp add: save_employees_def)
qed

subsection \<open>Departments are never blank\<close>

lemma valid_department_nonblank:
  "fst (is_valid_department_format dept) \<Longrightarrow> dept \<noteq> [] \<and> strip dept \<noteq> []"
  by (auto simp: is_valid_department_format_def split: if_splits)

lemma Employee_department:
  "Employee eid nm dept sal em contact = Inr e \<Longrightarrow>
     department e \<noteq> [] \<and> strip (department e) \<noteq> []"
  using Employee_InrD(3,10) [of eid nm dept sal em contact e] valid_department_nonblank [of dept]
  by (simp add: strip_idem)

lemma from_dict_department:
  "from_dict d = Inr (Some e) \<Longrightarrow> department e \<noteq> [] \<and> strip (department e) \<noteq> []"
  by (auto simp: from_dict_def Let_def dest: Employee_department split: option.splits sum.splits)

lemma load_lines_department:
  "load_lines n ls acc = (acc', out) \<Longrightarrow>
     list_all (\<lambda>e. department e \<noteq> [] \<and> strip (department e) \<noteq> []) acc \<Longrightarrow>
     list_all (\<lambda>e. department e \<noteq> [] \<and> strip (department e) \<noteq> []) acc'"
proof (induction ls arbitrary: n acc acc' out)
  case Nil
  then show ?case by simp
next
  case (Cons raw rest)
  obtain a1 o1 where l: "load_line n raw acc = (a1, o1)"
    by (cases "load_line n raw acc")
  obtain a2 o2 where r: "load_lines (Suc n) rest a1 = (a2, o2)"
    by (cases "load_lines (Suc n) rest a1")
  from Cons.prems(1) l r have "acc' = a2" by simp
  moreover have "list_all (\<lambda>e. department e \<noteq> [] \<and> strip (department e) \<noteq> []) a1"
    using load_line_cases [OF l] Cons.prems(2) from_dict_department by auto
  ultimately show ?case
    using Cons.IH [OF r] by simp
qed

lemma load_employees_department:
  "list_all (\<lambda>e. department e \<noteq> [] \<and> strip (department e) \<noteq> []) (fst (load_employees f))"
proof (cases f)
  case None
  then show ?thesis by (simp add: load_employees_def)
next
  case (Some content)
  obtain a o1 where l: "load_lines 2 (drop 1 (file_lines content)) [] = (a, o1)"
    by (cases "load_lines 2 (drop 1 (file_lines content)) []")
  from load_lines_department [OF l] have "list_all (\<lambda>e. department e \<noteq> [] \<and> strip (department e) \<noteq> []) a"
    by simp
  with Some l show ?thesis by (simp add: load_employees_def)
qed

lemma add_employee_InrE:
  assumes "add_employee s inp = Inr (s', out, rest)"
  obtains "s' = s" "out \<noteq> Added"
  | e eid nm dept sal em contact where
      "Employee eid nm dept (SalaryFloat sal) em contact = Inr e"
      "out = Added"
      "s' = save_employees (s \<lparr> employees_list := employees_list s @ [e] \<rparr>)"
  using assms unfolding add_employee_def
  by (auto elim!: bind_err_InrE split: sum.split_asm error.split_asm)

lemma add_employee_department:
  assumes "add_employee s inp = Inr (s', out, rest)"
    and "list_all (\<lambda>e. department e \<noteq> [] \<and> strip (department e) \<noteq> []) (employees_list s)"
  shows "list_all (\<lambda>e. department e \<noteq> [] \<and> strip (department e) \<noteq> []) (employees_list s')"
  using assms(1)
proof (rule add_employee_InrE)
  assume "s' = s"
  with assms(2) show ?thesis by simp
next
  fix e eid nm dept sal em contact
  assume "Employee eid nm dept (SalaryFloat sal) em contact = Inr e"
    and "s' = save_employees (s \<lparr> employees_list := employees_list s @ [e] \<rparr>)"
  with assms(2) Employee_department show ?thesis
    by (simp add: save_employees_def)
qed

lemma list_all_update:
  "list_all P xs \<Longrightarrow> P y \<Longrightarrow> list_all P (xs [i := y])"
proof (induction xs arbitrary: i)
  case Nil
  then show ?case by simp
next
  case (Cons x xs)
  then show ?case by (cases i) simp_all
qed

lemma update_employee_department:
  assumes "update_employee s inp = Inr (s', out, rest)"
    and "list_all (\<lambda>e. department e \<noteq> [] \<and> strip (department e) \<noteq> []) (employees_list s)"
  shows "list_all (\<lambda>e. department e \<noteq> [] \<and> strip (department e) \<noteq> []) (employees_list s')"
proof (cases "out = Updated")
  case True
  with assms have u: "update_employee s inp = Inr (s', Updated, rest)" by simp
  show ?thesis
  proof (rule update_employee_UpdatedE [OF u])
    fix x0 x1 x2 x3 x4 x5 x6 un ud us ue uc
    assume found: "find_employee_index_by_id s (strip x0) \<noteq> - 1"
      and d: "optional_field is_valid_department_format (strip x2)
       (department (employees_list s ! nat (find_employee_index_by_id s (strip x0)))) = Inr ud"
      and s': "s' = save_employees (s \<lparr> employees_list :=
            (employees_list s) [nat (find_employee_index_by_id s (strip x0)) :=
               (employees_list s ! nat (find_employee_index_by_id s (strip x0)))
                 \<lparr> name := un, department := ud, salary := us, email := ue,
                   contact_details := uc \<rparr>] \<rparr>)"
    have old: "department (employees_list s ! nat (find_employee_index_by_id s (strip x0))) \<noteq> [] \<and>
        strip (department (employees_list s ! nat (find_employee_index_by_id s (strip x0)))) \<noteq> []"
      using find_index_found [OF found] assms(2) by (simp add: list_all_length)
    have "ud \<noteq> [] \<and> strip ud \<noteq> []"
      using optional_field_Inr [OF d] old valid_department_nonblank [of "strip x2"]
      by (auto split: if_splits)
    then show ?thesis
      using assms(2) s' by (simp add: save_employees_def list_all_update)
  qed
next
  case False
  with update_employee_other [OF assms(1)] assms(2) show ?thesis by simp
qed

lemma delete_employee_department:
  assumes "delete_employee s inp = Inr (s', out, rest)"
    and "list_all P (employees_list s)"
  shows "list_all P (employees_list s')"
  using delete_employee_cases [OF assms(1)] assms(2)
  by (auto simp: save_employees_def list_all_iff) (meson in_set_takeD in_set_dropD)+

lemma reachable_department:
  assumes "reachable s"
  shows "list_all (\<lambda>e. department e \<noteq> [] \<and> strip (department e) \<noteq> []) (employees_list s)"
  using assms
proof (induction rule: reachable.induct)
  case (start f)
  then show ?case by (simp add: EmployeeManagementSystem_def load_employees_department)
next
  case (add s inp s' out rest)
  with add_employee_department show ?case by blast
next
  case (update s inp s' out rest)
  with update_employee_department show ?case by blast
next
  case (delete s inp s' out rest)
  with delete_employee_department show ?case by blast
next
  case (view s inp s' out rest)
  with view_employee_same show ?case by blast
next
  case (listing s)
  then show ?case by (simp add: list_all_employees_def Let_def)
next
  case (reporting s)
  then show ?case by (simp add: generate_department_report_def Let_def)
next
  case (leave s)
  then show ?case by (simp add: save_employees_def)
qed

subsection \<open>Lines of six fields\<close>

lemma dict_of_six:
  "map_of (zip EMPLOYEE_KEYS [a, b, c, d, e, f]) =
     [''Employee ID'' \<mapsto> a, ''Name'' \<mapsto> b, ''Department'' \<mapsto> c, ''Salary'' \<mapsto> d,
      ''Email'' \<mapsto> e, ''Contact Details'' \<mapsto> f]"
  by (rule ext) (simp add: EMPLOYEE_KEYS_def)

lemma length_six:
  "length vals = length EMPLOYEE_KEYS \<Longrightarrow> \<exists>a b c d e f. vals = [a, b, c, d, e, f]"
  by (auto simp: EMPLOYEE_KEYS_def length_Suc_conv eval_nat_numeral)

lemma salary_of_six:
  "length vals = length EMPLOYEE_KEYS \<Longrightarrow>
     dict_get (map_of (zip EMPLOYEE_KEYS vals)) ''Salary'' ''0'' = vals ! 3"
  by (drule length_six) (auto simp: dict_of_six dict_get_def)

lemma load_line_good:
  assumes "length (split_on DELIMITER (strip raw)) = length EMPLOYEE_KEYS"
    and "from_dict (map_of (zip EMPLOYEE_KEYS (split_on DELIMITER (strip raw)))) = Inr (Some e)"
  shows "load_line n raw acc =
     (if list_ex (\<lambda>x. employee_id x = employee_id e) acc
      then (acc, [Duplicate_id (employee_id e) n]) else (acc @ [e], []))"
proof -
  have "strip raw \<noteq> []"
    using assms(1) by (auto simp: EMPLOYEE_KEYS_def)
  with assms show ?thesis
    by (simp add: load_line_def Let_def)
qed

lemma load_line_short:
  assumes "strip raw \<noteq> []"
    and "length (split_on DELIMITER (strip raw)) \<noteq> length EMPLOYEE_KEYS"
  shows "load_line n raw acc =
     (acc, [Skipping_malformed n (length (split_on DELIMITER (strip raw))) (strip raw)])"
  using assms by (simp add: load_line_def Let_def)

lemma load_line_bad_salary:
  assumes "length (split_on DELIMITER (strip raw)) = length EMPLOYEE_KEYS"
    and "float_of_string (split_on DELIMITER (strip raw) ! 3) = None"
  shows "load_line n raw acc = (acc, [Skipping_none n (strip raw)])"
proof -
  have "strip raw \<noteq> []"
    using assms(1) by (auto simp: EMPLOYEE_KEYS_def)
  moreover have "from_dict (map_of (zip EMPLOYEE_KEYS (split_on DELIMITER (strip raw)))) = Inr None"
    using assms by (simp add: from_dict_def salary_of_six)
  ultimately show ?thesis
    using assms(1) by (simp add: load_line_def Let_def)
qed

subsection \<open>Grouping by department\<close>

lemma add_to_departments_keys:
  "map fst (add_to_departments k d e dd) =
     (if k \<in> set (map fst dd) then map fst dd else map fst dd @ [k])"
  by (induction dd) force+

lemma add_to_departments_map_of:
  "map_of (add_to_departments k d e dd) =
     (map_of dd) (k \<mapsto> (case map_of dd k of
        None \<Rightarrow> \<lparr> display_name = d, employees = [e] \<rparr>
      | Some info \<Rightarrow> info \<lparr> employees := employees info @ [e] \<rparr>))"
  by (induction dd) (auto simp: fun_eq_iff)

lemma departments_data_snoc:
  "departments_data (es @ [e]) =
     add_to_departments (dept_key e) (dept_display_name e) e (departments_data es)"
  by (simp add: departments_data_def)

lemma departments_data_keys:
  "distinct (map fst (departments_data es)) \<and>
   set (map fst (departments_data es)) = dept_key ` set es"
proof (induction es rule: rev_induct)
  case Nil
  then show ?case by (simp add: departments_data_def)
next
  case (snoc e es)
  then show ?case
    by (auto simp: departments_data_snoc add_to_departments_keys)
qed

lemma departments_data_map_of:
  "map_of (departments_data es) k =
     (if k \<in> dept_key ` set es then Some 
               \<lparr> display_name = dept_display_name (hd (filter (\<lambda>x. dept_key x = k) es)),
                  employees = filter (\<lambda>x. dept_key x = k) es \<rparr> else None)"
proof (induction es rule: rev_induct)
  case Nil
  then show ?case by (simp add: departments_data_def)
next
  case (snoc e es)
  show ?case
  proof (cases "k = dept_key e")
    case True
    show ?thesis
    proof (cases "dept_key e \<in> dept_key ` set es")
      case True
      then have "filter (\<lambda>x. dept_key x = dept_key e) es \<noteq> []"
        by (auto simp: filter_empty_conv)
      with True \<open>k = dept_key e\<close> snoc show ?thesis
        by (simp add: departments_data_snoc add_to_departments_map_of)
    next
      case False
      then have "filter (\<lambda>x. dept_key x = dept_key e) es = []"
        unfolding filter_empty_conv by (metis imageI)
      with False \<open>k = dept_key e\<close> snoc show ?thesis
        by (simp add: departments_data_snoc add_to_departments_map_of)
    qed
  next
    case False
    with snoc show ?thesis
      by (auto simp: departments_data_snoc add_to_departments_map_of)
  qed
qed

lemma departments_data_member:
  assumes "(k, info) \<in> set (departments_data es)"
  shows "info = \<lparr> display_name = dept_display_name (hd (filter (\<lambda>x. dept_key x = k) es)),
                  employees = filter (\<lambda>x. dept_key x = k) es \<rparr>"
proof -
  have "map_of (departments_data es) k = Some info"
    using assms departments_data_keys [of es] by simp
  then show ?thesis
    by (simp add: departments_data_map_of split: if_splits)
qed

lemma count_one:
  "distinct ks \<Longrightarrow> a \<in> set ks \<Longrightarrow> (\<Sum>k\<leftarrow>ks. if a = k then 1 else 0) = (1::nat)"
proof (induction ks)
  case Nil
  then show ?case by simp
next
  case (Cons k ks)
  show ?case
  proof (cases "a = k")
    case True
    with Cons.prems have "a \<notin> set ks" by simp
    then have "(\<Sum>k\<leftarrow>ks. if a = k then 1 else 0) = (0::nat)"
      by (induction ks) auto
    with True show ?thesis by simp
  next
    case False
    with Cons show ?thesis by simp
  qed
qed

lemma sum_group_lengths:
  "distinct ks \<Longrightarrow> f ` set es \<subseteq> set ks \<Longrightarrow>
     (\<Sum>k\<leftarrow>ks. length (filter (\<lambda>x. f x = k) es)) = length es"
proof (induction es)
  case Nil
  then show ?case by simp
next
  case (Cons e es)
  have "(\<Sum>k\<leftarrow>ks. length (filter (\<lambda>x. f x = k) (e # es))) =
      (\<Sum>k\<leftarrow>ks. (if f e = k then 1 else 0) + length (filter (\<lambda>x. f x = k) es))"
    by (rule arg_cong [where f = sum_list]) simp
  also have "\<dots> = (\<Sum>k\<leftarrow>ks. if f e = k then 1 else 0) + (\<Sum>k\<leftarrow>ks. length (filter (\<lambda>x. f x = k) es))"
    by (simp add: sum_list_addf)
  also have "\<dots> = 1 + length es"
    using Cons count_one [of ks "f e"] by simp
  finally show ?case by simp
qed


lemma pairs_from_keys:
  "\<forall>p \<in> set xs. snd p = g (fst p) \<Longrightarrow> xs = map (\<lambda>k. (k, g k)) (map fst xs)"
  by (induction xs) auto

lemma report_sections:
  assumes "employees_list s \<noteq> []"
  shows "\<exists>ks. distinct ks \<and> set ks = dept_key ` set (employees_list s) \<and>
     sorted (map (\<lambda>k. dept_display_name (hd (filter (\<lambda>x. dept_key x = k) (employees_list s)))) ks) \<and>
     generate_department_report s =
       (s, Some \<lparr> sections = map (\<lambda>k. dept_section_of
                      \<lparr> display_name = dept_display_name (hd (filter (\<lambda>x. dept_key x = k) (employees_list s))),
                        employees = filter (\<lambda>x. dept_key x = k) (employees_list s) \<rparr>) ks,
                   n_departments = length ks,
                   total_employees_overall = length (employees_list s) \<rparr>)"
proof -
  define es where "es = employees_list s"
  define dd where "dd = departments_data es"
  define g where "g = (\<lambda>k. \<lparr> display_name = dept_display_name (hd (filter (\<lambda>x. dept_key x = k) es)),
                        employees = filter (\<lambda>x. dept_key x = k) es \<rparr>)"
  define sorted_depts where "sorted_depts = sort_key (\<lambda>(k, info). display_name info) dd"
  define ks where "ks = map fst sorted_depts"
  have ms: "mset sorted_depts = mset dd"
    by (simp add: sorted_depts_def)
  then have st: "set sorted_depts = set dd"
    by (metis set_mset_mset)
  have "mset ks = mset (map fst dd)"
    using ms by (simp add: ks_def)
  then have dk: "distinct ks" and sk: "set ks = dept_key ` set es"
    using departments_data_keys [of es] mset_eq_imp_distinct_iff [of ks "map fst dd"]
      mset_eq_setD [of ks "map fst dd"]
    unfolding dd_def by simp_all
  have "\<forall>p \<in> set sorted_depts. snd p = g (fst p)"
    using departments_data_member [of _ _ es] st by (auto simp: dd_def g_def)
  then have sd: "sorted_depts = map (\<lambda>k. (k, g k)) ks"
    unfolding ks_def by (rule pairs_from_keys)
  have "sorted (map (\<lambda>(k, info). display_name info) sorted_depts)"
    unfolding sorted_depts_def by (rule sorted_sort_key)
  then have so: "sorted (map (\<lambda>k. display_name (g k)) ks)"
    by (subst (asm) sd) (simp add: comp_def)
  have ne: "dd \<noteq> []"
    using departments_data_keys [of es] assms by (auto simp: dd_def es_def)
  have len: "length dd = length ks"
    by (simp add: ks_def sorted_depts_def)
  define secs where "secs = map (\<lambda>(k, info). dept_section_of info) sorted_depts"
  have secs: "secs = map (\<lambda>k. dept_section_of (g k)) ks"
    unfolding secs_def by (subst sd) (simp add: comp_def)
  have "sum_list (map total_in_dept (map (\<lambda>k. dept_section_of (g k)) ks)) = length es"
    using sum_group_lengths [of ks dept_key es] dk sk
    by (simp add: comp_def dept_section_of_def g_def Let_def)
  then have tot: "sum_list (map total_in_dept secs) = length es"
    by (simp only: secs)
  have "generate_department_report s =
       (s, Some \<lparr> sections = secs, n_departments = length dd,
                   total_employees_overall = sum_list (map total_in_dept secs) \<rparr>)"
    using assms ne
    by (simp add: generate_department_report_def Let_def dd_def [symmetric] es_def [symmetric]
        sorted_depts_def [symmetric] secs_def [symmetric] del: map_map)
  then have "generate_department_report s =
       (s, Some \<lparr> sections = secs, n_departments = length ks,
                   total_employees_overall = length es \<rparr>)"
    by (simp only: tot len)
  then have "generate_department_report s =
       (s, Some \<lparr> sections = map (\<lambda>k. dept_section_of (g k)) ks,
                   n_departments = length ks,
                   total_employees_overall = length es \<rparr>)"
    by (simp only: secs)
  with dk sk so show ?thesis
    unfolding g_def es_def by (intro exI [of _ ks]) simp
qed

subsection \<open>Decimal digits, written and read\<close>

lemma digit_cases:
  "0 \<le> d \<Longrightarrow> d < 10 \<Longrightarrow>
     d = 0 \<or> d = 1 \<or> d = 2 \<or> d = 3 \<or> d = 4 \<or> d = 5 \<or> d = 6 \<or> d = 7 \<or> d = 8 \<or> d = (9 :: int)"
  by arith

lemma digit_char_values:
  "digit_char 0 = CHR ''0''" "digit_char 1 = CHR ''1''" "digit_char 2 = CHR ''2''"
  "digit_char 3 = CHR ''3''" "digit_char 4 = CHR ''4''" "digit_char 5 = CHR ''5''"
  "digit_char 6 = CHR ''6''" "digit_char 7 = CHR ''7''" "digit_char 8 = CHR ''8''"
  "digit_char 9 = CHR ''9''"
  by code_simp+

lemma digit_char_props:
  assumes "0 \<le> d" "d < 10"
  shows "ascii_digit (digit_char d)" "of_char (digit_char d) = 48 + d"
    "\<not> float_space (digit_char d)" "digit_char d \<noteq> CHR ''_''" "digit_char d \<noteq> CHR ''.''"
    "digit_char d \<noteq> CHR ''-''" "digit_char d \<noteq> CHR ''+''"
    "ascii_tolower (digit_char d) = digit_char d"
  using digit_cases [OF assms]
  by (auto simp: digit_char_values ascii_digit_def float_space_def ascii_tolower_def ascii_upper_def)

lemma digits_of_digits: "0 \<le> n \<Longrightarrow> list_all ascii_digit (digits_of n)"
proof (induction n rule: digits_of.induct)
  case (1 n)
  show ?case
  proof (cases "n < 10")
    case True
    with 1 show ?thesis
      by (subst digits_of.simps) (simp add: digit_char_props)
  next
    case False
    with 1 show ?thesis
      by (subst digits_of.simps) (simp add: digit_char_props)
  qed
qed

lemma digits_of_nonempty: "digits_of n \<noteq> []"
  by (subst digits_of.simps) simp

lemma digits_value_snoc:
  "digits_value (ds @ [c]) = 10 * digits_value ds + (of_char c - 48)"
  by (simp add: digits_value_def)

lemma digits_value_digits_of: "0 \<le> n \<Longrightarrow> digits_value (digits_of n) = n"
proof (induction n rule: digits_of.induct)
  case (1 n)
  show ?case
  proof (cases "n < 10")
    case True
    with 1 show ?thesis
      by (subst digits_of.simps) (simp add: digits_value_def digit_char_props)
  next
    case False
    with 1 have "digits_value (digits_of (n div 10)) = n div 10"
      by simp
    with False 1 show ?thesis
      by (subst digits_of.simps) (simp add: digits_value_snoc digit_char_props)
  qed
qed

subsection \<open>Reading the two-decimal rendering of a salary\<close>

lemma dropWhile_hd: "xs = [] \<or> \<not> P (hd xs) \<Longrightarrow> dropWhile P xs = xs"
  by (cases xs) auto

lemma strip_ends:
  assumes "s \<noteq> []" "\<not> P (hd s)" "\<not> P (last s)"
  shows "rev (dropWhile P (rev (dropWhile P s))) = s"
proof -
  have "dropWhile P s = s"
    using assms by (simp add: dropWhile_hd)
  moreover have "dropWhile P (rev s) = rev s"
    using assms by (simp add: dropWhile_hd hd_rev)
  ultimately show ?thesis by simp
qed

lemma remove_underscores_none:
  "CHR ''_'' \<notin> set s \<Longrightarrow> prev \<noteq> CHR ''_'' \<Longrightarrow> remove_underscores prev s = Some s"
  by (induction s arbitrary: prev) auto

lemma ascii_digit_facts:
  assumes "ascii_digit c"
  shows "ascii_tolower c = c" "c \<noteq> CHR ''i''" "c \<noteq> CHR ''n''" "c \<noteq> CHR ''-''" "c \<noteq> CHR ''+''"
    "c \<noteq> CHR ''_''" "c \<noteq> CHR ''.''" "\<not> float_space c"
  using assms
  by (auto simp: ascii_digit_def ascii_tolower_def ascii_upper_def float_space_def Let_def)

lemma decimal_value:
  "10 * (10 * (n div 100) + n mod 100 div 10) + n mod 10 = (n :: int)"
proof -
  have a: "n mod 100 mod 10 = n mod 10"
    by (rule mod_mod_cancel) simp
  have "10 * (n mod 100 div 10) + n mod 100 mod 10 = n mod 100"
    by (rule mult_div_mod_eq)
  then have "10 * (n mod 100 div 10) + n mod 10 = n mod 100"
    by (simp only: a)
  moreover have "100 * (n div 100) + n mod 100 = n"
    by (rule mult_div_mod_eq)
  moreover have "10 * b + c = r \<Longrightarrow> 100 * a + r = n \<Longrightarrow> 10 * (10 * a + b) + c = n"
    for a b c r :: int
    by arith
  ultimately show ?thesis
    by blast
qed

lemma float_of_decimal_text:
  assumes ds: "ds \<noteq> []" "list_all ascii_digit ds" and c: "ascii_digit c1" "ascii_digit c2"
  shows "float_of_string ((if s then ''-'' else '''') @ ds @ ''.'' @ [c1, c2]) =
     Some (round_to_double s (of_int (digits_value (ds @ [c1, c2])) * pow10 (- 2)))"
proof -
  define body where "body = ds @ ''.'' @ [c1, c2]"
  define rendered where "rendered = (if s then ''-'' else '''') @ body"
  obtain d ds' where d: "ds = d # ds'"
    using ds(1) by (cases ds) auto
  have dd: "ascii_digit d" and dds: "\<forall>x \<in> set ds. ascii_digit x"
    using ds(2) d by (auto simp: list_all_iff)
  have hd_rendered: "\<not> float_space (hd rendered)"
    using ascii_digit_facts [OF dd] by (auto simp: rendered_def body_def d float_space_def)
  have last_rendered: "\<not> float_space (last rendered)"
    using ascii_digit_facts [OF c(2)] by (simp add: rendered_def body_def)
  have "rendered \<noteq> []"
    by (simp add: rendered_def body_def)
  then have fs: "float_strip rendered = rendered"
    unfolding float_strip_def using hd_rendered last_rendered by (rule strip_ends)
  have "CHR ''_'' \<notin> set rendered"
    using dds ascii_digit_facts(6) c by (auto simp: rendered_def body_def)
  then have ru: "remove_underscores (CHR 0x00) rendered = Some rendered"
    by (rule remove_underscores_none) simp
  have ps: "parse_sign rendered = (s, body)"
    using ascii_digit_facts [OF dd] by (auto simp: parse_sign_def rendered_def body_def d)
  have low: "map ascii_tolower body \<noteq> ''inf''" "map ascii_tolower body \<noteq> ''infinity''"
    "map ascii_tolower body \<noteq> ''nan''"
    using ascii_digit_facts [OF dd] by (auto simp: body_def d)
  have tw: "takeWhile ascii_digit body = ds"
    using dds by (simp add: body_def ascii_digit_def)
  have dw: "dropWhile ascii_digit body = ''.'' @ [c1, c2]"
    using dds by (simp add: body_def ascii_digit_def)
  have tw2: "takeWhile ascii_digit [c1, c2] = [c1, c2]" "dropWhile ascii_digit [c1, c2] = []"
    using c by simp_all
  show ?thesis
    unfolding rendered_def [symmetric] body_def [symmetric] float_of_string_def fs ru
    using ps low tw dw tw2 ds(1)
    by (simp add: Let_def parse_exponent_def)
qed

lemma round_half_even_nonneg: "0 \<le> q \<Longrightarrow> 0 \<le> round_half_even q"
  by (auto simp: round_half_even_def Let_def)

lemma two_digit_range: "(0::int) \<le> r \<Longrightarrow> r < 100 \<Longrightarrow> r div 10 < 10 \<and> 0 \<le> r div 10"
  by linarith

lemma float_of_format_finite:
  assumes "0 \<le> m"
  shows "float_of_string (format_2f (Finite s m)) = Some (py_round2 (Finite s m))"
proof -
  define n where "n = round_half_even (m * 100)"
  have n: "0 \<le> n"
    using assms by (simp add: n_def round_half_even_nonneg)
  have r1: "0 \<le> n div 100"
    using n by (simp add: pos_imp_zdiv_nonneg_iff)
  have r2: "0 \<le> n mod 100 div 10" and r3: "n mod 100 div 10 < 10"
    using two_digit_range [of "n mod 100"] by simp_all
  have r4: "0 \<le> n mod 10" and r5: "n mod 10 < 10"
    by simp_all
  have ds: "digits_of (n div 100) \<noteq> []" "list_all ascii_digit (digits_of (n div 100))"
    using r1 by (simp_all add: digits_of_nonempty digits_of_digits)
  have c: "ascii_digit (digit_char (n mod 100 div 10))" "ascii_digit (digit_char (n mod 10))"
    using r2 r3 r4 r5 by (simp_all add: digit_char_props)
  have "digits_value (digits_of (n div 100) @ [digit_char (n mod 100 div 10), digit_char (n mod 10)]) =
      10 * (10 * (n div 100) + n mod 100 div 10) + n mod 10"
    using digits_value_snoc [of "digits_of (n div 100) @ [digit_char (n mod 100 div 10)]" "digit_char (n mod 10)"]
      digits_value_snoc [of "digits_of (n div 100)" "digit_char (n mod 100 div 10)"]
      digits_value_digits_of [OF r1] digit_char_props(2) [OF r2 r3] digit_char_props(2) [OF r4 r5]
    by simp
  then have v: "digits_value (digits_of (n div 100) @
      [digit_char (n mod 100 div 10), digit_char (n mod 10)]) = n"
    by (simp only: decimal_value)
  have "float_of_string (format_2f (Finite s m)) =
      Some (round_to_double s (of_int n * pow10 (- 2)))"
    using float_of_decimal_text [OF ds c, of s]
    by (simp add: format_2f_def n_def [symmetric] Let_def v del: append.simps)
  then show ?thesis
    by (simp add: py_round2_def n_def pow10_def)
qed

lemma float_of_format:
  assumes "float_wf x"
  shows "float_of_string (format_2f x) = Some (py_round2 x)"
proof (cases x)
  case (Finite s m)
  with assms float_of_format_finite [of m s] show ?thesis
    by (simp add: float_wf_def)
next
  case (Infinity s)
  have "float_of_string ''inf'' = Some (Infinity False)" "float_of_string ''-inf'' = Some (Infinity True)"
    by code_simp+
  with Infinity show ?thesis
    by (simp add: format_2f_def py_round2_def)
next
  case NaN
  have "float_of_string ''nan'' = Some NaN"
    by code_simp
  with NaN show ?thesis
    by (simp add: format_2f_def py_round2_def)
qed

lemma py_round2_not_negative:
  assumes "float_wf x" "\<not> float_lt_zero x"
  shows "\<not> float_lt_zero (py_round2 x)"
proof (cases x)
  case (Finite s m)
  show ?thesis
  proof (cases s)
    case True
    with assms Finite have "m = 0"
      by (simp add: float_wf_def float_lt_zero_def)
    with Finite show ?thesis
      by (simp add: py_round2_def round_half_even_def round_to_double_def float_lt_zero_def)
  next
    case False
    with Finite show ?thesis
      by (simp add: py_round2_def round_to_double_def float_lt_zero_def Let_def)
  qed
next
  case (Infinity s)
  with assms show ?thesis by (simp add: py_round2_def)
next
  case NaN
  then show ?thesis by (simp add: py_round2_def float_lt_zero_def)
qed

subsection \<open>The constructor on the fields of a record\<close>

lemma valid_stripped:
  "fst (is_valid_name_format s) \<Longrightarrow> fst (is_valid_name_format (strip s))"
  "fst (is_valid_department_format s) \<Longrightarrow> fst (is_valid_department_format (strip s))"
  "fst (is_valid_email_format s) \<Longrightarrow> fst (is_valid_email_format (strip s))"
  "fst (is_valid_contact_details_format s) \<Longrightarrow> fst (is_valid_contact_details_format (strip s))"
  by (auto simp: is_valid_name_format_def is_valid_department_format_def is_valid_email_format_def
      is_valid_contact_details_format_def strip_idem split: if_splits)

lemma salary_not_negative:
  assumes "Employee eid nm dept sal em contact = Inr e"
  shows "\<not> float_lt_zero (salary e)"
  using Employee_InrD(4,7) [OF assms]
  by (cases sal) (auto simp: salary_check_def float_of_arg_def is_valid_salary_format_def
      split: if_splits option.splits)

lemma from_dict_to_dict:
  assumes "Employee eid nm dept sal em contact = Inr e" and "float_wf (salary e)"
  shows "from_dict (to_dict e) = Inr (Some (e \<lparr> salary := py_round2 (salary e) \<rparr>))"
proof -
  note v = Employee_InrD [OF assms(1)]
  have i: "fst (is_valid_employee_id_format (employee_id e))" "strip (employee_id e) = employee_id e"
    using v(1,8) valid_id_isalnum [of eid] strip_isalnum [of eid] by simp_all
  have f: "fst (is_valid_name_format (name e))" "fst (is_valid_department_format (department e))"
    "fst (is_valid_email_format (email e))" "fst (is_valid_contact_details_format (contact_details e))"
    using v valid_stripped by simp_all
  have s: "strip (name e) = name e" "strip (department e) = department e"
    "strip (email e) = email e" "strip (contact_details e) = contact_details e"
    using v by (simp_all add: strip_idem)
  have n: "\<not> float_lt_zero (py_round2 (salary e))"
    using py_round2_not_negative [OF assms(2) salary_not_negative [OF assms(1)]] .
  have "Employee (employee_id e) (name e) (department e) (SalaryFloat (py_round2 (salary e)))
      (email e) (contact_details e) = Inr (e \<lparr> salary := py_round2 (salary e) \<rparr>)"
    using i f s n by (simp add: Employee_def salary_check_def float_of_arg_def)
  then show ?thesis
    using float_of_format [OF assms(2)]
    by (simp add: from_dict_def to_dict_def dict_get_def)
qed

subsection \<open>Values of \<open>float()\<close> are well-formed\<close>

lemma pow2_pos: "0 < pow2 e"
  by (simp add: pow2_def)

lemma pow10_pos: "0 < pow10 e"
  by (simp add: pow10_def)

lemma round_to_double_wf: "0 \<le> q \<Longrightarrow> float_wf (round_to_double s q)"
proof -
  assume q: "0 \<le> q"
  have "0 \<le> of_int (round_half_even (q / pow2 e)) * pow2 e" for e
    using q pow2_pos [of e] round_half_even_nonneg [of "q / pow2 e"]
    by (simp add: less_imp_le)
  then show ?thesis
    by (simp add: round_to_double_def float_wf_def Let_def)
qed

lemma foldl_digits_nonneg:
  "list_all ascii_digit ds \<Longrightarrow> 0 \<le> a \<Longrightarrow> 0 \<le> foldl (\<lambda>n c. 10 * n + (of_char c - 48)) (a :: int) ds"
proof (induction ds arbitrary: a)
  case Nil
  then show ?case by simp
next
  case (Cons c ds)
  from Cons.prems(1) have "48 \<le> (of_char c :: nat)"
    by (simp add: ascii_digit_def Let_def)
  then have "48 \<le> (of_char c :: int)"
    by (metis of_nat_le_iff of_nat_numeral of_nat_of_char)
  with Cons show ?case by simp
qed

lemma digits_value_nonneg: "list_all ascii_digit ds \<Longrightarrow> 0 \<le> digits_value ds"
  by (simp add: digits_value_def foldl_digits_nonneg)

lemma float_of_string_cases:
  assumes "float_of_string s = Some x"
  shows "x = NaN \<or> (\<exists>b. x = Infinity b) \<or>
     (\<exists>neg a b k. x = round_to_double neg
        (of_int (digits_value (takeWhile ascii_digit a @ takeWhile ascii_digit b)) * pow10 k))"
proof -
  obtain t where t: "remove_underscores (CHR 0x00) (float_strip s) = Some t"
    using assms by (auto simp: float_of_string_def split: option.splits)
  obtain neg body where p: "parse_sign t = (neg, body)"
    by (cases "parse_sign t")
  show ?thesis
  proof (cases "map ascii_tolower body = ''inf'' \<or> map ascii_tolower body = ''infinity'' \<or>
      map ascii_tolower body = ''nan''")
    case True
    with assms t p show ?thesis
      by (auto simp: float_of_string_def Let_def)
  next
    case False
    obtain fp r2 where f: "(case dropWhile ascii_digit body of
                      [] \<Rightarrow> ([], [])
                    | c # cs \<Rightarrow> if c = CHR ''.''
                        then (takeWhile ascii_digit cs, dropWhile ascii_digit cs)
                        else ([], dropWhile ascii_digit body)) = (fp, r2)"
      by (cases "(case dropWhile ascii_digit body of
                      [] \<Rightarrow> ([], [])
                    | c # cs \<Rightarrow> if c = CHR ''.''
                        then (takeWhile ascii_digit cs, dropWhile ascii_digit cs)
                        else ([], dropWhile ascii_digit body))")
    have fp: "\<exists>b. fp = takeWhile ascii_digit b"
      using f by (auto split: list.splits if_splits intro: exI [of _ "[]"])
    from assms t p False f have
      "\<exists>ex. round_to_double neg (of_int (digits_value (takeWhile ascii_digit body @ fp)) *
          pow10 (ex - int (length fp))) = x"
      by (simp add: float_of_string_def Let_def split: if_splits option.splits) blast
    with fp show ?thesis
      by blast
  qed
qed

lemma takeWhile_digits_nonneg:
  "0 \<le> digits_value (takeWhile ascii_digit a @ takeWhile ascii_digit b)"
proof (rule digits_value_nonneg)
  have "\<forall>c \<in> set (takeWhile ascii_digit a). ascii_digit c"
    "\<forall>c \<in> set (takeWhile ascii_digit b). ascii_digit c"
    by (auto dest: set_takeWhileD)
  then show "list_all ascii_digit (takeWhile ascii_digit a @ takeWhile ascii_digit b)"
    by (auto simp: list_all_iff)
qed

lemma float_of_string_wf:
  assumes "float_of_string s = Some x"
  shows "float_wf x"
proof -
  from float_of_string_cases [OF assms]
  consider "x = NaN" | b where "x = Infinity b"
    | neg a b k where "x = round_to_double neg
        (of_int (digits_value (takeWhile ascii_digit a @ takeWhile ascii_digit b)) * pow10 k)"
    by blast
  then show ?thesis
  proof cases
    case 1
    then show ?thesis by (simp add: float_wf_def)
  next
    case 2
    then show ?thesis by (simp add: float_wf_def)
  next
    case 3
    have "0 \<le> of_int (digits_value (takeWhile ascii_digit a @ takeWhile ascii_digit b)) * pow10 k"
      using takeWhile_digits_nonneg [of a b] pow10_pos [of k] by (simp add: less_imp_le)
    then show ?thesis
      unfolding 3 by (rule round_to_double_wf)
  qed
qed

section \<open>Properties of the validators and of \<open>from_dict\<close>\<close>

lemma salary_validator_accepts:
  "fst (is_valid_salary_format s) \<longleftrightarrow>
     strip s \<noteq> [] \<and> (\<exists>x. float_of_string s = Some x \<and> \<not> float_lt_zero x)"
  by (auto simp: is_valid_salary_format_def strip_def split: option.splits)

lemma salary_validator_examples:
  "is_valid_salary_format ''0'' = (True, '''')"
  "is_valid_salary_format ''65000.50'' = (True, '''')"
  "is_valid_salary_format '''' = (False, ''Salary cannot be empty.'')"
  "is_valid_salary_format ''   '' = (False, ''Salary cannot be empty.'')"
  "is_valid_salary_format ''-100'' = (False, ''Salary cannot be negative.'')"
  "is_valid_salary_format ''-'' = (False, ''Salary must be a valid number (e.g., 50000 or 65000.50).'')"
  "is_valid_salary_format ''abc'' = (False, ''Salary must be a valid number (e.g., 50000 or 65000.50).'')"
  by code_simp+

text \<open>
  Claim C5.  The salary validator should accept a text exactly when it is not empty
  and reads as a real number that is at least zero.  It gives the three messages and
  treats zero, fractions, blanks, negatives and a lone sign as the claim says
  (\<open>salary_validator_examples\<close>), but it also accepts the text \<open>nan\<close>: \<open>float()\<close>
  reads it as not-a-number, and the test \<open>salary < 0\<close> is false for that value.
\<close>

theorem salary_validator_accepts_nan:
  "is_valid_salary_format ''nan'' = (True, '''') \<and> float_of_string ''nan'' = Some NaN"
  by code_simp

theorem salary_validator_accepts_nan_witness:
  "fst (is_valid_salary_format ''nan'')"
  using salary_validator_accepts_nan by simp

text \<open>
  Claim C4.  The two ways \<open>from_dict\<close> fails: when the text under \<open>Salary\<close> (\<open>0\<close>
  when the key is missing) is not read by \<open>float()\<close>, it returns \<open>None\<close> and raises
  nothing; when that text is read and one of the five other fields is refused by its
  validator, the \<open>ValueError\<close> of the constructor reaches the caller.
\<close>

theorem from_dict_failure_modes:
  "(float_of_string (dict_get d ''Salary'' ''0'') = None \<longrightarrow> from_dict d = Inr None) \<and>
   (float_of_string (dict_get d ''Salary'' ''0'') \<noteq> None \<and>
    (\<not> fst (is_valid_employee_id_format (dict_get d ''Employee ID'' '''')) \<or>
     \<not> fst (is_valid_name_format (dict_get d ''Name'' '''')) \<or>
     \<not> fst (is_valid_department_format (dict_get d ''Department'' '''')) \<or>
     \<not> fst (is_valid_email_format (dict_get d ''Email'' '''')) \<or>
     \<not> fst (is_valid_contact_details_format (dict_get d ''Contact Details'' '''')))
    \<longrightarrow> (\<exists>msg. from_dict d = Inl (ValueError msg)))"
  by (auto simp: from_dict_def Employee_def Let_def split: option.splits)

theorem from_dict_failure_modes_witness:
  "float_of_string (dict_get
      [''Employee ID'' \<mapsto> ''BF001'', ''Name'' \<mapsto> ''Alice Smith'', ''Department'' \<mapsto> ''Engineering'',
       ''Salary'' \<mapsto> ''not-a-number'', ''Email'' \<mapsto> ''alice.s@bitfutura.test'',
       ''Contact Details'' \<mapsto> ''123-456-7890''] ''Salary'' ''0'') = None \<and>
   from_dict
      [''Employee ID'' \<mapsto> ''BF001'', ''Name'' \<mapsto> ''Alice Smith'', ''Department'' \<mapsto> ''Engineering'',
       ''Salary'' \<mapsto> ''not-a-number'', ''Email'' \<mapsto> ''alice.s@bitfutura.test'',
       ''Contact Details'' \<mapsto> ''123-456-7890''] = Inr None \<and>
   float_of_string (dict_get
      [''Employee ID'' \<mapsto> ''BF001'', ''Name'' \<mapsto> ''Alice Smith'', ''Department'' \<mapsto> '''',
       ''Salary'' \<mapsto> ''75000.50'', ''Email'' \<mapsto> ''alice.s@bitfutura.test'',
       ''Contact Details'' \<mapsto> ''123-456-7890''] ''Salary'' ''0'') \<noteq> None \<and>
   \<not> fst (is_valid_department_format (dict_get
      [''Employee ID'' \<mapsto> ''BF001'', ''Name'' \<mapsto> ''Alice Smith'', ''Department'' \<mapsto> '''',
       ''Salary'' \<mapsto> ''75000.50'', ''Email'' \<mapsto> ''alice.s@bitfutura.test'',
       ''Contact Details'' \<mapsto> ''123-456-7890''] ''Department'' '''')) \<and>
   (\<exists>msg. from_dict
      [''Employee ID'' \<mapsto> ''BF001'', ''Name'' \<mapsto> ''Alice Smith'', ''Department'' \<mapsto> '''',
       ''Salary'' \<mapsto> ''75000.50'', ''Email'' \<mapsto> ''alice.s@bitfutura.test'',
       ''Contact Details'' \<mapsto> ''123-456-7890''] = Inl (ValueError msg))"
proof -
  have a: "float_of_string ''not-a-number'' = None" by code_simp
  have b: "float_of_string ''75000.50'' \<noteq> None" by code_simp
  have c: "\<not> fst (is_valid_department_format '''')" by (simp add: is_valid_department_format_def)
  show ?thesis
    using from_dict_failure_modes
      [of "[''Employee ID'' \<mapsto> ''BF001'', ''Name'' \<mapsto> ''Alice Smith'', ''Department'' \<mapsto> ''Engineering'',
       ''Salary'' \<mapsto> ''not-a-number'', ''Email'' \<mapsto> ''alice.s@bitfutura.test'',
       ''Contact Details'' \<mapsto> ''123-456-7890'']"]
      from_dict_failure_modes
      [of "[''Employee ID'' \<mapsto> ''BF001'', ''Name'' \<mapsto> ''Alice Smith'', ''Department'' \<mapsto> '''',
       ''Salary'' \<mapsto> ''75000.50'', ''Email'' \<mapsto> ''alice.s@bitfutura.test'',
       ''Contact Details'' \<mapsto> ''123-456-7890'']"]
      a b c
    by (simp add: dict_get_def)
qed

section \<open>Loading and saving\<close>

text \<open>
  Claim C3.  Load resilience: when the file holds a header line, a well-formed record
  line, a non-blank line that does not split into six fields, and a line of six
  fields whose salary text \<open>float()\<close> does not read, \<open>_load_employees\<close> returns
  exactly the one record of the well-formed line and reports each of the two other
  lines with its line number (3 and 4, the header being line 1); the load itself
  ends normally, with the count of loaded records.
\<close>

theorem load_resilience:
  assumes "file_lines content = [header, good, short, bad]"
    and "length (split_on DELIMITER (strip good)) = length EMPLOYEE_KEYS"
    and "from_dict (map_of (zip EMPLOYEE_KEYS (split_on DELIMITER (strip good)))) = Inr (Some e)"
    and "strip short \<noteq> []"
    and "length (split_on DELIMITER (strip short)) \<noteq> length EMPLOYEE_KEYS"
    and "length (split_on DELIMITER (strip bad)) = length EMPLOYEE_KEYS"
    and "float_of_string (split_on DELIMITER (strip bad) ! 3) = None"
  shows "load_employees (Some content) =
     ([e], [Skipping_malformed 3 (length (split_on DELIMITER (strip short))) (strip short),
            Skipping_none 4 (strip bad),
            Loaded 1])"
  using assms(1) load_line_good [OF assms(2,3), of 2 "[]"]
    load_line_short [OF assms(4,5), of 3 "[e]"]
    load_line_bad_salary [OF assms(6,7), of 4 "[e]"]
  by (simp add: load_employees_def eval_nat_numeral)

theorem load_resilience_witness:
  "file_lines mixed_file = [header_line, line_BF002, line_five_fields, line_invalid_salary] \<and>
   length (split_on DELIMITER (strip line_five_fields)) = 5 \<and>
   float_of_string (split_on DELIMITER (strip line_invalid_salary) ! 3) = None \<and>
   load_employees (Some mixed_file) =
     ([emp_BF002], [Skipping_malformed 3 5 line_five_fields,
                    Skipping_none 4 line_invalid_salary,
                    Loaded 1])"
proof -
  have h1: "file_lines mixed_file = [header_line, line_BF002, line_five_fields, line_invalid_salary]"
    by code_simp
  have h2: "length (split_on DELIMITER (strip line_BF002)) = length EMPLOYEE_KEYS"
    by code_simp
  have h3: "from_dict (map_of (zip EMPLOYEE_KEYS (split_on DELIMITER (strip line_BF002)))) =
      Inr (Some emp_BF002)"
    by code_simp
  have h4: "strip line_five_fields \<noteq> []"
    by code_simp
  have h5: "length (split_on DELIMITER (strip line_five_fields)) \<noteq> length EMPLOYEE_KEYS"
    by code_simp
  have h6: "length (split_on DELIMITER (strip line_invalid_salary)) = length EMPLOYEE_KEYS"
    by code_simp
  have h7: "float_of_string (split_on DELIMITER (strip line_invalid_salary) ! 3) = None"
    by code_simp
  have s1: "strip line_five_fields = line_five_fields"
    by code_simp
  have s2: "strip line_invalid_salary = line_invalid_salary"
    by code_simp
  have n: "length (split_on DELIMITER (strip line_five_fields)) = 5"
    by code_simp
  from load_resilience [OF h1 h2 h3 h4 h5 h6 h7] h1 h7 n show ?thesis
    by (simp add: s1 s2)
qed

section \<open>Invariants of the store\<close>

text \<open>
  Claim C1.  Employee ids are pairwise distinct in every state the system reaches.
  \<open>add_employee\<close> does not take a line whose stripped text is an id already in the
  list: it asks again, with the state as it was (nothing appended, nothing written);
  a record it does append has an id no record of the list had.  While loading, a
  line whose record has the id of a record accepted before is dropped with a
  warning and the list stays as it is, so the first one wins.
\<close>

theorem employee_ids_distinct:
  "(reachable s \<longrightarrow> distinct (map employee_id (employees_list s))) \<and>
   (\<not> is_employee_id_unique t (strip x) \<longrightarrow> add_employee t (x # inp) = add_employee t inp) \<and>
   (add_employee t inp' = Inr (t', Added, rest) \<longrightarrow>
      (\<exists>e. employees_list t' = employees_list t @ [e] \<and>
           employee_id e \<notin> employee_id ` set (employees_list t))) \<and>
   (length (split_on DELIMITER (strip raw)) = length EMPLOYEE_KEYS \<and>
    from_dict (map_of (zip EMPLOYEE_KEYS (split_on DELIMITER (strip raw)))) = Inr (Some e) \<and>
    employee_id e \<in> employee_id ` set acc \<longrightarrow>
      load_line n raw acc = (acc, [Duplicate_id (employee_id e) n]))"
proof (intro conjI impI)
  assume "reachable s"
  then show "distinct (map employee_id (employees_list s))"
    by (rule reachable_distinct)
next
  assume "\<not> is_employee_id_unique t (strip x)"
  then show "add_employee t (x # inp) = add_employee t inp"
    by (simp add: add_employee_def Let_def)
next
  assume "add_employee t inp' = Inr (t', Added, rest)"
  from add_employee_cases [OF this]
  show "\<exists>e. employees_list t' = employees_list t @ [e] \<and>
           employee_id e \<notin> employee_id ` set (employees_list t)"
    by (auto simp: save_employees_def)
next
  assume a: "length (split_on DELIMITER (strip raw)) = length EMPLOYEE_KEYS \<and>
    from_dict (map_of (zip EMPLOYEE_KEYS (split_on DELIMITER (strip raw)))) = Inr (Some e) \<and>
    employee_id e \<in> employee_id ` set acc"
  then have "list_ex (\<lambda>x. employee_id x = employee_id e) acc"
    by (auto simp: list_ex_iff)
  with a load_line_good [of raw e n acc]
  show "load_line n raw acc = (acc, [Duplicate_id (employee_id e) n])"
    by simp
qed

theorem employee_ids_distinct_witness:
  "reachable (EmployeeManagementSystem (Some (file_text [emp_BF001, emp_BF001]))) \<and>
   employees_list (EmployeeManagementSystem (Some (file_text [emp_BF001, emp_BF001]))) = [emp_BF001] \<and>
   distinct (map employee_id
     (employees_list (EmployeeManagementSystem (Some (file_text [emp_BF001, emp_BF001]))))) \<and>
   \<not> is_employee_id_unique (store_of [emp_BF001]) (strip ''BF001'') \<and>
   add_employee (store_of [emp_BF001]) [''BF001''] = Inl EOFError \<and>
   add_employee (store_of [emp_BF001])
       [''BF002'', ''Bob Johnson'', ''Marketing'', ''60000'', ''bob.j@bitfutura.test'', ''987-654-3210''] =
     Inr (save_employees (store_of [emp_BF001, emp_BF002]), Added, []) \<and>
   employee_id emp_BF002 \<notin> employee_id ` set (employees_list (store_of [emp_BF001])) \<and>
   load_line 3 (employee_line emp_BF001) [emp_BF001] = ([emp_BF001], [Duplicate_id ''BF001'' 3])"
proof -
  let ?S = "EmployeeManagementSystem (Some (file_text [emp_BF001, emp_BF001]))"
  have r: "reachable ?S"
    by (rule reachable.start)
  have v: "employees_list ?S = [emp_BF001]"
    by code_simp
  have u: "\<not> is_employee_id_unique (store_of [emp_BF001]) (strip ''BF001'')"
    by code_simp
  have eof: "add_employee (store_of [emp_BF001]) [] = Inl EOFError"
    by code_simp
  have ad: "add_employee (store_of [emp_BF001])
       [''BF002'', ''Bob Johnson'', ''Marketing'', ''60000'', ''bob.j@bitfutura.test'', ''987-654-3210''] =
     Inr (save_employees (store_of [emp_BF001, emp_BF002]), Added, [])"
    by code_simp
  have l1: "length (split_on DELIMITER (strip (employee_line emp_BF001))) = length EMPLOYEE_KEYS"
    by code_simp
  have l2: "from_dict (map_of (zip EMPLOYEE_KEYS (split_on DELIMITER (strip (employee_line emp_BF001))))) =
      Inr (Some emp_BF001)"
    by code_simp
  have l3: "employee_id emp_BF001 \<in> employee_id ` set [emp_BF001]"
    by simp
  have i1: "employee_id emp_BF001 = ''BF001''"
    by (simp add: emp_BF001_def)
  have i2: "employee_id emp_BF002 = ''BF002''"
    by (simp add: emp_BF002_def)
  from employee_ids_distinct [of ?S "store_of [emp_BF001]" "''BF001''" "[]"
      "[''BF002'', ''Bob Johnson'', ''Marketing'', ''60000'', ''bob.j@bitfutura.test'', ''987-654-3210'']"
      "save_employees (store_of [emp_BF001, emp_BF002])" "[]" "employee_line emp_BF001" emp_BF001
      "[emp_BF001]" 3]
    r v u eof ad l1 l2 l3 i1
  have "distinct (map employee_id (employees_list ?S)) \<and>
     add_employee (store_of [emp_BF001]) [''BF001''] = Inl EOFError \<and>
     (\<exists>e. employees_list (save_employees (store_of [emp_BF001, emp_BF002])) =
            employees_list (store_of [emp_BF001]) @ [e] \<and>
          employee_id e \<notin> employee_id ` set (employees_list (store_of [emp_BF001]))) \<and>
     load_line 3 (employee_line emp_BF001) [emp_BF001] = ([emp_BF001], [Duplicate_id ''BF001'' 3])"
    by simp
  then have "distinct (map employee_id (employees_list ?S)) \<and>
     add_employee (store_of [emp_BF001]) [''BF001''] = Inl EOFError \<and>
     employee_id emp_BF002 \<notin> employee_id ` set (employees_list (store_of [emp_BF001])) \<and>
     load_line 3 (employee_line emp_BF001) [emp_BF001] = ([emp_BF001], [Duplicate_id ''BF001'' 3])"
    by (auto simp: store_of_def save_employees_def)
  with r v u ad show ?thesis
    by simp
qed

text \<open>
  Claim C10.  Every record of a reachable store has a department that is not empty,
  also after trimming: the records come from the constructor, which refuses a blank
  department, and \<open>update_employee\<close> replaces a department only by a line its
  validator accepts.  So the report never takes the branch of the sentinel
  \<open>uncategorized\<close>: the key of a record is its trimmed, lowercased department and
  the name shown is its trimmed department.
\<close>

theorem department_never_blank:
  assumes "reachable s" and "e \<in> set (employees_list s)"
  shows "department e \<noteq> [] \<and> strip (department e) \<noteq> [] \<and>
     dept_key e = lower (strip (department e)) \<and>
     dept_display_name e = strip (department e)"
  using reachable_department [OF assms(1)] assms(2)
  by (simp add: list_all_iff dept_key_def dept_display_name_def)

theorem department_never_blank_witness:
  "reachable (EmployeeManagementSystem (Some (file_text [emp_BF001, emp_BF002]))) \<and>
   emp_BF002 \<in> set (employees_list (EmployeeManagementSystem (Some (file_text [emp_BF001, emp_BF002])))) \<and>
   department emp_BF002 \<noteq> [] \<and> strip (department emp_BF002) \<noteq> [] \<and>
   dept_key emp_BF002 = ''marketing'' \<and> dept_display_name emp_BF002 = ''Marketing''"
proof -
  let ?S = "EmployeeManagementSystem (Some (file_text [emp_BF001, emp_BF002]))"
  have r: "reachable ?S"
    by (rule reachable.start)
  have v: "employees_list ?S = [emp_BF001, emp_BF002]"
    by code_simp
  then have m: "emp_BF002 \<in> set (employees_list ?S)"
    by simp
  have k: "lower (strip (department emp_BF002)) = ''marketing''" "strip (department emp_BF002) = ''Marketing''"
    by code_simp+
  from department_never_blank [OF r m] r m k show ?thesis
    by simp
qed

section \<open>The sorted listing\<close>

text \<open>
  Claim C7.  \<open>list_all_employees\<close> is a view: it returns the state it was given, so
  the list and its order stay as they were and a second call shows the same rows;
  the rows are all the records, in ascending order of their ids (the lexicographic
  order of strings).
\<close>

theorem list_all_employees_pure_view:
  "fst (list_all_employees s) = s \<and>
   list_all_employees (fst (list_all_employees s)) = list_all_employees s \<and>
   (case snd (list_all_employees s) of
      None \<Rightarrow> employees_list s = []
    | Some (sorted_list, shown_total) \<Rightarrow>
        sorted (map employee_id sorted_list) \<and>
        mset sorted_list = mset (employees_list s) \<and>
        shown_total = length (employees_list s))"
  by (simp add: list_all_employees_def Let_def)

theorem list_all_employees_pure_view_witness:
  "list_all_employees (store_of [emp_BF003, emp_BF001, emp_BF002]) =
     (store_of [emp_BF003, emp_BF001, emp_BF002], Some ([emp_BF001, emp_BF002, emp_BF003], 3)) \<and>
   fst (list_all_employees (store_of [emp_BF003, emp_BF001, emp_BF002])) =
     store_of [emp_BF003, emp_BF001, emp_BF002] \<and>
   sorted (map employee_id [emp_BF001, emp_BF002, emp_BF003])"
proof -
  have v: "list_all_employees (store_of [emp_BF003, emp_BF001, emp_BF002]) =
     (store_of [emp_BF003, emp_BF001, emp_BF002], Some ([emp_BF001, emp_BF002, emp_BF003], 3))"
    by code_simp
  from list_all_employees_pure_view [of "store_of [emp_BF003, emp_BF001, emp_BF002]"] v
  show ?thesis
    by simp
qed

section \<open>Saving and loading again\<close>

text \<open>
  Claim C9.  Nothing is quoted when the file is written.  The record built from the
  contact text \<open>12 Main St, Springfield\<close> is valid; its line has seven fields
  when split at the delimiter, so after saving a store that holds it, loading the
  file gives no record: the line is skipped as malformed.
\<close>

theorem delimiter_corruption:
  "\<exists>e. Employee ''BF001'' ''Alice Smith'' ''Engineering'' (SalaryStr ''75000.50'')
          ''alice.s@bitfutura.test'' ''12 Main St, Springfield'' = Inr e \<and>
       employee_line e =
         ''BF001,Alice Smith,Engineering,75000.50,alice.s@bitfutura.test,12 Main St, Springfield'' \<and>
       length (split_on DELIMITER (employee_line e)) = 7 \<and>
       load_employees (file_content (save_employees (store_of [e]))) =
         ([], [Skipping_malformed 2 7 (employee_line e), Loaded 0]) \<and>
       fst (load_employees (file_content (save_employees (store_of [e])))) \<noteq> [e]"
proof -
  let ?e = "emp_BF001 \<lparr> contact_details := ''12 Main St, Springfield'' \<rparr>"
  have a: "Employee ''BF001'' ''Alice Smith'' ''Engineering'' (SalaryStr ''75000.50'')
          ''alice.s@bitfutura.test'' ''12 Main St, Springfield'' = Inr ?e"
    by code_simp
  have b: "employee_line ?e =
      ''BF001,Alice Smith,Engineering,75000.50,alice.s@bitfutura.test,12 Main St, Springfield''"
    by code_simp
  have c: "length (split_on DELIMITER (employee_line ?e)) = 7"
    by code_simp
  have d: "load_employees (file_content (save_employees (store_of [?e]))) =
      ([], [Skipping_malformed 2 7 (employee_line ?e), Loaded 0])"
    by code_simp
  from a b c d show ?thesis
    by (intro exI [of _ ?e]) simp
qed

section \<open>Updating a record\<close>

text \<open>
  Claim C8.  The frame of a committed update.  When \<open>update_employee\<close> ends with
  "updated", it has read seven lines: the id, five field lines and the
  confirmation.  The record found under the id keeps its id; each of its five other
  fields keeps its value where the stripped line was empty and takes the stripped
  line (for the salary, the number \<open>float()\<close> reads from it) where it was not; all
  other records keep their places and contents; and the file holds the new list.
\<close>

theorem update_frame:
  assumes "update_employee s inp = Inr (s', Updated, rest)"
  shows "\<exists>x0 x1 x2 x3 x4 x5 x6. inp = x0 # x1 # x2 # x3 # x4 # x5 # x6 # rest \<and>
     (let i = nat (find_employee_index_by_id s (strip x0));
          old = employees_list s ! i;
          new = employees_list s' ! i
      in i < length (employees_list s) \<and>
         employee_id old = strip x0 \<and>
         employees_list s' = (employees_list s) [i := new] \<and>
         employee_id new = employee_id old \<and>
         name new = (if strip x1 = [] then name old else strip x1) \<and>
         department new = (if strip x2 = [] then department old else strip x2) \<and>
         (if strip x3 = [] then salary new = salary old
          else float_of_string (strip x3) = Some (salary new)) \<and>
         email new = (if strip x4 = [] then email old else strip x4) \<and>
         contact_details new = (if strip x5 = [] then contact_details old else strip x5) \<and>
         file_content s' = Some (file_text (employees_list s')))"
proof -
  from assms obtain x0 x1 x2 x3 x4 x5 x6 un ud us ue uc where
    inp: "inp = x0 # x1 # x2 # x3 # x4 # x5 # x6 # rest" and
    found: "find_employee_index_by_id s (strip x0) \<noteq> - 1" and
    n: "optional_field is_valid_name_format (strip x1)
       (name (employees_list s ! nat (find_employee_index_by_id s (strip x0)))) = Inr un" and
    d: "optional_field is_valid_department_format (strip x2)
       (department (employees_list s ! nat (find_employee_index_by_id s (strip x0)))) = Inr ud" and
    sa: "optional_salary (strip x3)
       (salary (employees_list s ! nat (find_employee_index_by_id s (strip x0)))) = Inr (Inr us)" and
    e: "optional_field is_valid_email_format (strip x4)
       (email (employees_list s ! nat (find_employee_index_by_id s (strip x0)))) = Inr ue" and
    c: "optional_field is_valid_contact_details_format (strip x5)
       (contact_details (employees_list s ! nat (find_employee_index_by_id s (strip x0)))) = Inr uc" and
    s': "s' = save_employees (s \<lparr> employees_list :=
            (employees_list s) [nat (find_employee_index_by_id s (strip x0)) :=
               (employees_list s ! nat (find_employee_index_by_id s (strip x0)))
                 \<lparr> name := un, department := ud, salary := us, email := ue,
                   contact_details := uc \<rparr>] \<rparr>)"
    by (rule update_employee_UpdatedE)
  define i where "i = nat (find_employee_index_by_id s (strip x0))"
  define old where "old = employees_list s ! i"
  have i: "i < length (employees_list s)" "employee_id old = strip x0"
    using find_index_found [OF found] by (simp_all add: i_def old_def)
  have es: "employees_list s' = (employees_list s)
      [i := old \<lparr> name := un, department := ud, salary := us, email := ue, contact_details := uc \<rparr>]"
    using s' by (simp add: save_employees_def i_def old_def)
  have new: "employees_list s' ! i =
      old \<lparr> name := un, department := ud, salary := us, email := ue, contact_details := uc \<rparr>"
    using es i(1) by simp
  have fc: "file_content s' = Some (file_text (employees_list s'))"
    using s' by (simp add: save_employees_def)
  have fields: "un = (if strip x1 = [] then name old else strip x1)"
    "ud = (if strip x2 = [] then department old else strip x2)"
    "if strip x3 = [] then us = salary old else float_of_string (strip x3) = Some us"
    "ue = (if strip x4 = [] then email old else strip x4)"
    "uc = (if strip x5 = [] then contact_details old else strip x5)"
    using optional_field_Inr [OF n] optional_field_Inr [OF d] optional_salary_Inr [OF sa]
      optional_field_Inr [OF e] optional_field_Inr [OF c]
    by (simp_all add: i_def old_def)
  have "let i = nat (find_employee_index_by_id s (strip x0));
          old = employees_list s ! i;
          new = employees_list s' ! i
      in i < length (employees_list s) \<and>
         employee_id old = strip x0 \<and>
         employees_list s' = (employees_list s) [i := new] \<and>
         employee_id new = employee_id old \<and>
         name new = (if strip x1 = [] then name old else strip x1) \<and>
         department new = (if strip x2 = [] then department old else strip x2) \<and>
         (if strip x3 = [] then salary new = salary old
          else float_of_string (strip x3) = Some (salary new)) \<and>
         email new = (if strip x4 = [] then email old else strip x4) \<and>
         contact_details new = (if strip x5 = [] then contact_details old else strip x5) \<and>
         file_content s' = Some (file_text (employees_list s'))"
    unfolding Let_def i_def [symmetric] old_def [symmetric] new
    using i es fc fields by simp
  with inp show ?thesis by blast
qed

theorem update_frame_witness:
  "update_employee (store_of [emp_BF002, emp_BF001])
      [''BF001'', ''Alice Smith Jr'', '''', ''80000'', '''', ''New Contact'', ''yes''] =
     Inr (save_employees (store_of [emp_BF002,
            emp_BF001 \<lparr> name := ''Alice Smith Jr'', salary := Finite False 80000,
              contact_details := ''New Contact'' \<rparr>]), Updated, []) \<and>
   (\<exists>x0 x1 x2 x3 x4 x5 x6.
      [''BF001'', ''Alice Smith Jr'', '''', ''80000'', '''', ''New Contact'', ''yes''] =
        [x0, x1, x2, x3, x4, x5, x6] \<and>
      nat (find_employee_index_by_id (store_of [emp_BF002, emp_BF001]) (strip x0)) = 1 \<and>
      strip x1 \<noteq> [] \<and> strip x2 = [] \<and> strip x3 \<noteq> [] \<and> strip x4 = [] \<and> strip x5 \<noteq> [])"
proof -
  have h: "update_employee (store_of [emp_BF002, emp_BF001])
      [''BF001'', ''Alice Smith Jr'', '''', ''80000'', '''', ''New Contact'', ''yes''] =
     Inr (save_employees (store_of [emp_BF002,
            emp_BF001 \<lparr> name := ''Alice Smith Jr'', salary := Finite False 80000,
              contact_details := ''New Contact'' \<rparr>]), Updated, [])"
    by code_simp
  have i: "nat (find_employee_index_by_id (store_of [emp_BF002, emp_BF001]) (strip ''BF001'')) = 1"
    by code_simp
  have s: "strip ''Alice Smith Jr'' \<noteq> []" "strip '''' = []" "strip ''80000'' \<noteq> []"
    "strip ''New Contact'' \<noteq> []"
    by code_simp+
  from update_frame [OF h] h i s show ?thesis
    by simp
qed

section \<open>The report by department\<close>

text \<open>
  Claim C6.  The report groups the records by their department, trimmed and in lower
  case.  For a store that is not empty it has one section for each key that occurs;
  the rows of a section are exactly the records with its key, sorted by name; the
  section is named after the first record with the key and carries the number of its
  records and the sum of their salaries; the sections come in ascending order of
  their names; and the grand total is the number of records in the store.  The
  three departments \<open>Engineering\<close>, \<open>engineering \<close> and \<open>Marketing\<close> give two
  sections, of two records and of one.
\<close>

theorem department_report_groups:
  assumes "employees_list s \<noteq> []"
  shows "(\<exists>rep ks. generate_department_report s = (s, Some rep) \<and>
      distinct ks \<and> set ks = dept_key ` set (employees_list s) \<and>
      map section_rows (sections rep) =
        map (\<lambda>k. sort_key name (filter (\<lambda>x. dept_key x = k) (employees_list s))) ks \<and>
      map department_name (sections rep) =
        map (\<lambda>k. dept_display_name (hd (filter (\<lambda>x. dept_key x = k) (employees_list s)))) ks \<and>
      map total_in_dept (sections rep) =
        map (\<lambda>k. length (filter (\<lambda>x. dept_key x = k) (employees_list s))) ks \<and>
      map total_salary_dept (sections rep) =
        map (\<lambda>k. foldl float_add (Finite False 0)
              (map salary (sort_key name (filter (\<lambda>x. dept_key x = k) (employees_list s))))) ks \<and>
      list_all (\<lambda>sec. sorted (map name (section_rows sec))) (sections rep) \<and>
      sorted (map department_name (sections rep)) \<and>
      n_departments rep = length ks \<and>
      total_employees_overall rep = length (employees_list s)) \<and>
    generate_department_report (store_of [emp_BF001, emp_lower_dept, emp_BF002]) =
      (store_of [emp_BF001, emp_lower_dept, emp_BF002],
       Some \<lparr> sections =
           [\<lparr> department_name = ''Engineering'', section_rows = [emp_BF001, emp_lower_dept],
              total_in_dept = 2, total_salary_dept = Finite False (310001 / 2) \<rparr>,
            \<lparr> department_name = ''Marketing'', section_rows = [emp_BF002],
              total_in_dept = 1, total_salary_dept = Finite False 60000 \<rparr>],
          n_departments = 2, total_employees_overall = 3 \<rparr>)"
proof
  from report_sections [OF assms] obtain ks where
    ks: "distinct ks" "set ks = dept_key ` set (employees_list s)" and
    so: "sorted (map (\<lambda>k. dept_display_name (hd (filter (\<lambda>x. dept_key x = k) (employees_list s)))) ks)" and
    rep: "generate_department_report s =
       (s, Some \<lparr> sections = map (\<lambda>k. dept_section_of
                      \<lparr> display_name = dept_display_name (hd (filter (\<lambda>x. dept_key x = k) (employees_list s))),
                        employees = filter (\<lambda>x. dept_key x = k) (employees_list s) \<rparr>) ks,
                   n_departments = length ks,
                   total_employees_overall = length (employees_list s) \<rparr>)"
    by blast
  let ?rep = "\<lparr> sections = map (\<lambda>k. dept_section_of
                      \<lparr> display_name = dept_display_name (hd (filter (\<lambda>x. dept_key x = k) (employees_list s))),
                        employees = filter (\<lambda>x. dept_key x = k) (employees_list s) \<rparr>) ks,
                   n_departments = length ks,
                   total_employees_overall = length (employees_list s) \<rparr>"
  have "map section_rows (sections ?rep) =
        map (\<lambda>k. sort_key name (filter (\<lambda>x. dept_key x = k) (employees_list s))) ks"
    by (simp add: dept_section_of_def comp_def Let_def)
  moreover have "map department_name (sections ?rep) =
        map (\<lambda>k. dept_display_name (hd (filter (\<lambda>x. dept_key x = k) (employees_list s)))) ks"
    by (simp add: dept_section_of_def comp_def Let_def)
  moreover have "map total_in_dept (sections ?rep) =
        map (\<lambda>k. length (filter (\<lambda>x. dept_key x = k) (employees_list s))) ks"
    by (simp add: dept_section_of_def comp_def Let_def)
  moreover have "map total_salary_dept (sections ?rep) =
        map (\<lambda>k. foldl float_add (Finite False 0)
              (map salary (sort_key name (filter (\<lambda>x. dept_key x = k) (employees_list s))))) ks"
    by (simp add: dept_section_of_def comp_def Let_def)
  moreover have "list_all (\<lambda>sec. sorted (map name (section_rows sec))) (sections ?rep)"
    by (simp add: dept_section_of_def list_all_iff Let_def)
  moreover have "sorted (map department_name (sections ?rep))"
    using so by (simp add: dept_section_of_def comp_def Let_def)
  ultimately show "\<exists>rep ks. generate_department_report s = (s, Some rep) \<and>
      distinct ks \<and> set ks = dept_key ` set (employees_list s) \<and>
      map section_rows (sections rep) =
        map (\<lambda>k. sort_key name (filter (\<lambda>x. dept_key x = k) (employees_list s))) ks \<and>
      map department_name (sections rep) =
        map (\<lambda>k. dept_display_name (hd (filter (\<lambda>x. dept_key x = k) (employees_list s)))) ks \<and>
      map total_in_dept (sections rep) =
        map (\<lambda>k. length (filter (\<lambda>x. dept_key x = k) (employees_list s))) ks \<and>
      map total_salary_dept (sections rep) =
        map (\<lambda>k. foldl float_add (Finite False 0)
              (map salary (sort_key name (filter (\<lambda>x. dept_key x = k) (employees_list s))))) ks \<and>
      list_all (\<lambda>sec. sorted (map name (section_rows sec))) (sections rep) \<and>
      sorted (map department_name (sections rep)) \<and>
      n_departments rep = length ks \<and>
      total_employees_overall rep = length (employees_list s)"
    using rep ks by (intro exI [of _ ?rep] exI [of _ ks]) simp
next
  show "generate_department_report (store_of [emp_BF001, emp_lower_dept, emp_BF002]) =
      (store_of [emp_BF001, emp_lower_dept, emp_BF002],
       Some \<lparr> sections =
           [\<lparr> department_name = ''Engineering'', section_rows = [emp_BF001, emp_lower_dept],
              total_in_dept = 2, total_salary_dept = Finite False (310001 / 2) \<rparr>,
            \<lparr> department_name = ''Marketing'', section_rows = [emp_BF002],
              total_in_dept = 1, total_salary_dept = Finite False 60000 \<rparr>],
          n_departments = 2, total_employees_overall = 3 \<rparr>)"
    by code_simp
qed

theorem department_report_groups_witness:
  "employees_list (store_of [emp_BF001, emp_lower_dept, emp_BF002]) \<noteq> [] \<and>
   map department [emp_BF001, emp_lower_dept, emp_BF002] =
     [''Engineering'', ''engineering '', ''Marketing''] \<and>
   (\<exists>rep ks. generate_department_report (store_of [emp_BF001, emp_lower_dept, emp_BF002]) =
        (store_of [emp_BF001, emp_lower_dept, emp_BF002], Some rep) \<and>
      distinct ks \<and> set ks = {''engineering'', ''marketing''} \<and>
      n_departments rep = length ks \<and> total_employees_overall rep = 3)"
proof -
  have ne: "employees_list (store_of [emp_BF001, emp_lower_dept, emp_BF002]) \<noteq> []"
    by (simp add: store_of_def)
  have d: "map department [emp_BF001, emp_lower_dept, emp_BF002] =
     [''Engineering'', ''engineering '', ''Marketing'']"
    by (simp add: emp_BF001_def emp_lower_dept_def emp_BF002_def emp_BF003_def)
  have "map dept_key [emp_BF001, emp_lower_dept, emp_BF002] =
      [''engineering'', ''engineering'', ''marketing'']"
    by code_simp
  then have "set (map dept_key [emp_BF001, emp_lower_dept, emp_BF002]) =
      set [''engineering'', ''engineering'', ''marketing'']"
    by (rule arg_cong)
  then have k: "dept_key ` set (employees_list (store_of [emp_BF001, emp_lower_dept, emp_BF002])) =
      {''engineering'', ''marketing''}"
    by (simp add: store_of_def)
  from department_report_groups [OF ne]
  obtain rep ks where "generate_department_report (store_of [emp_BF001, emp_lower_dept, emp_BF002]) =
        (store_of [emp_BF001, emp_lower_dept, emp_BF002], Some rep)"
    "distinct ks"
    "set ks = dept_key ` set (employees_list (store_of [emp_BF001, emp_lower_dept, emp_BF002]))"
    "n_departments rep = length ks"
    "total_employees_overall rep = length (employees_list (store_of [emp_BF001, emp_lower_dept, emp_BF002]))"
    by blast
  then have "\<exists>rep ks. generate_department_report (store_of [emp_BF001, emp_lower_dept, emp_BF002]) =
        (store_of [emp_BF001, emp_lower_dept, emp_BF002], Some rep) \<and>
      distinct ks \<and> set ks = {''engineering'', ''marketing''} \<and>
      n_departments rep = length ks \<and> total_employees_overall rep = 3"
    unfolding k by (intro exI [of _ rep] exI [of _ ks]) (simp add: store_of_def)
  with ne d show ?thesis
    by (simp only: simp_thms)
qed

section \<open>The round trip through \<open>to_dict\<close> and \<open>from_dict\<close>\<close>

text \<open>
  For the first record of the tests the round trip gives the record back.
\<close>

lemma round_trip_example:
  "from_dict (to_dict emp_BF001) = Inr (Some emp_BF001)"
  by code_simp

text \<open>
  In general, \<open>from_dict\<close> reads back what \<open>to_dict\<close> wrote: for a record the
  constructor has built, the round trip succeeds, the five text fields come back as
  they were, and the salary comes back rounded to two decimals.
\<close>

lemma from_dict_to_dict_text:
  assumes "Employee eid nm dept (SalaryStr salary_str) em contact = Inr e"
  shows "from_dict (to_dict e) = Inr (Some (e \<lparr> salary := py_round2 (salary e) \<rparr>))"
proof -
  have "float_of_string salary_str = Some (salary e)"
    using Employee_InrD(7) [OF assms] by (simp add: float_of_arg_def)
  then have "float_wf (salary e)"
    by (rule float_of_string_wf)
  with assms show ?thesis
    by (rule from_dict_to_dict)
qed

text \<open>
  Claim C2.  \<open>from_dict(e.to_dict())\<close> should give a record equal to \<open>e\<close> in all six
  fields, the salaries compared after rounding to two decimals.  The constructor
  accepts the salary text \<open>nan\<close> (the validator lets it through, see claim C5); for
  that record \<open>to_dict\<close> writes the salary as \<open>nan\<close>, with no decimals, and
  \<open>from_dict\<close> succeeds with a record whose salary is again not-a-number, which is
  not equal to the salary of the original, rounded or not.
\<close>

theorem round_trip_fails_for_nan:
  "Employee ''BF001'' ''Alice Smith'' ''Engineering'' (SalaryStr ''nan'')
      ''alice.s@bitfutura.test'' ''123-456-7890'' = Inr (emp_BF001 \<lparr> salary := NaN \<rparr>) \<and>
   to_dict (emp_BF001 \<lparr> salary := NaN \<rparr>) ''Salary'' = Some ''nan'' \<and>
   from_dict (to_dict (emp_BF001 \<lparr> salary := NaN \<rparr>)) = Inr (Some (emp_BF001 \<lparr> salary := NaN \<rparr>)) \<and>
   float_eq (py_round2 (salary (emp_BF001 \<lparr> salary := NaN \<rparr>)))
            (py_round2 (salary (emp_BF001 \<lparr> salary := NaN \<rparr>))) = False"
proof -
  have a: "Employee ''BF001'' ''Alice Smith'' ''Engineering'' (SalaryStr ''nan'')
      ''alice.s@bitfutura.test'' ''123-456-7890'' = Inr (emp_BF001 \<lparr> salary := NaN \<rparr>)"
    by code_simp
  have b: "to_dict (emp_BF001 \<lparr> salary := NaN \<rparr>) ''Salary'' = Some ''nan''"
    by (simp add: to_dict_def format_2f_def)
  have c: "from_dict (to_dict (emp_BF001 \<lparr> salary := NaN \<rparr>)) =
      Inr (Some (emp_BF001 \<lparr> salary := NaN \<rparr>))"
    by code_simp
  have d: "float_eq (py_round2 NaN) (py_round2 NaN) = False"
    by (simp add: float_eq_def py_round2_def)
  from a b c d show ?thesis
    by simp
qed

theorem round_trip_fails_for_nan_witness:
  "\<not> float_eq (py_round2 (salary (emp_BF001 \<lparr> salary := NaN \<rparr>)))
            (py_round2 (salary (emp_BF001 \<lparr> salary := NaN \<rparr>)))"
  using round_trip_fails_for_nan by simp

end
